theory Spec2Isabelle
  imports Main "HOL-Library.Word"
begin

section \<open>The transcription job runner of AudioProcessor.vue\<close>

text \<open>
  The component keeps its data in reactive refs and drives one asynchronous function,
  \<^verbatim>\<open>processAudio\<close>, which uploads an audio file, submits a transcription request,
  polls the job status once a second and finally downloads a transcript or an SRT file.
  The refs become the fields of a record that is passed through the run. Every effect on
  the outside world (a fetch, the one-second timer, the localStorage write, the download)
  is appended to a log kept in the same record, oldest first. What the remote service
  answers is an input of the run: one response for each of the upload, submit and caption
  calls, and the list of the responses to the status queries in the order they arrive. A
  round of the polling loop is logged when its response has arrived; a run that has used
  up the list while the loop still goes on has not returned.
\<close>

subsection \<open>Values\<close>

text \<open>A \<^verbatim>\<open>File\<close>: its display name, its declared MIME type and its bytes.\<close>

record audio_file =
  name :: string
  mime :: string
  bytes :: "8 word list"

text \<open>
  What a \<^verbatim>\<open>throw\<close> or a rejected promise carries: an \<^verbatim>\<open>Error\<close> object with its
  message, or any other value (the \<^verbatim>\<open>catch\<close> block tells them apart with
  \<^verbatim>\<open>instanceof Error\<close>).
\<close>

datatype thrown = Error string | NonError

text \<open>
  The outcome of one \<^verbatim>\<open>await fetch(...)\<close>. The promise either rejects (no response
  at all) or resolves to a response with its \<^verbatim>\<open>ok\<close> flag and its body. Reading the
  body (\<^verbatim>\<open>json()\<close>, \<^verbatim>\<open>text()\<close>, then the fields the code reads) either throws or
  yields the value.
\<close>

datatype 'a body = Unreadable thrown | Readable 'a

datatype 'a fetched = Rejected thrown | Response bool "'a body"

text \<open>
  A value read from a JSON field. The code compares it with string literals by
  \<^verbatim>\<open>===\<close>, prints it inside template literals and passes it on, so a value is either a
  string or something that is not a string; the latter is given by what a template literal
  prints for it (\<^verbatim>\<open>undefined\<close> for an absent field, \<^verbatim>\<open>null\<close>, \<^verbatim>\<open>42\<close>, ...).
\<close>

datatype js_value = Str string | Other string

text \<open>
  The JSON of a status response, as far as the code reads it: \<^verbatim>\<open>result.status\<close> and
  \<^verbatim>\<open>result.text\<close>. The upload JSON is read only at \<^verbatim>\<open>upload_url\<close> and the submit
  JSON only at \<^verbatim>\<open>id\<close>, so each is the value of that one field.
\<close>

record poll_json =
  json_status :: js_value
  json_text :: js_value

record env =
  uploadResponse :: "js_value fetched"
  transcriptResponse :: "js_value fetched"
  pollingResponses :: "poll_json fetched list"
  srtResponse :: "string fetched"

text \<open>
  The effects, in the order of the source:
  \<^item> \<open>SetItem k v\<close>: \<^verbatim>\<open>localStorage.setItem(k, v)\<close>;
  \<^item> \<open>UploadCall a f\<close>: POST /v2/upload with Authorization \<open>a\<close> and body \<open>f\<close>;
  \<^item> \<open>SubmitCall a u l m\<close>: POST /v2/transcript with Authorization \<open>a\<close> and the JSON
    body of \<^verbatim>\<open>audio_url\<close> \<open>u\<close>, \<^verbatim>\<open>language_code\<close> \<open>l\<close>, \<^verbatim>\<open>speech_model\<close> \<open>m\<close>;
  \<^item> \<open>Sleep ms\<close>: the awaited \<^verbatim>\<open>setTimeout(resolve, ms)\<close>;
  \<^item> \<open>StatusCall a i\<close>: GET /v2/transcript/\<open>i\<close> with Authorization \<open>a\<close>;
  \<^item> \<open>CaptionCall a i n\<close>: GET /v2/transcript/\<open>i\<close>/srt?chars_per_caption=\<open>n\<close> with
    Authorization \<open>a\<close>;
  \<^item> \<open>Download c f\<close>: \<^verbatim>\<open>downloadFile(c, f)\<close>.
\<close>

datatype event =
    SetItem string string
  | UploadCall string audio_file
  | SubmitCall string js_value string string
  | Sleep nat
  | StatusCall string string
  | CaptionCall string string int
  | Download js_value string

text \<open>
  The refs of the component that \<^verbatim>\<open>processAudio\<close> reads or writes, and the log of
  effects. \<^verbatim>\<open>characterLength\<close> is the number bound to the input field, as a whole number;
  the progress percentage only ever holds the non-negative whole numbers assigned to it.
\<close>

record state =
  apiKey :: string
  audioFile :: "audio_file option"
  outputType :: string
  characterLength :: int
  isLoading :: bool
  errorMessage :: string
  successMessage :: string
  processingProgress :: nat
  processingStage :: string
  effects :: "event list"

text \<open>The variables declared before the polling loop.\<close>

record poll_vars =
  result :: "poll_json option"
  status :: js_value
  pollCount :: nat

text \<open>
  How far a piece of the run got: it is still inside the polling loop and the service has
  not answered the next query (\<open>Pending\<close>, with the loop variables), it threw, or it ran
  to its end.
\<close>

datatype 'a res = Pending poll_vars state | Throw thrown state | Ok 'a state

fun state_of :: "'a res \<Rightarrow> state" where
  "state_of (Pending v s) = s"
| "state_of (Throw x s) = s"
| "state_of (Ok a s) = s"

datatype run = Returned state | Waiting state

fun run_state :: "run \<Rightarrow> state" where
  "run_state (Returned s) = s"
| "run_state (Waiting s) = s"

subsection \<open>String helpers of the language\<close>

text \<open>A value inside a template literal.\<close>

definition interp :: "js_value \<Rightarrow> string" where
  "interp v = (case v of Str s \<Rightarrow> s | Other printed \<Rightarrow> printed)"

text \<open>A non-negative whole number inside a template literal: its decimal digits.\<close>

function show_nat :: "nat \<Rightarrow> string" where
  "show_nat n =
     (if n < 10 then [char_of (48 + n)]
      else show_nat (n div 10) @ [char_of (48 + n mod 10)])"
  by pat_completeness auto
termination
  by (relation "measure (\<lambda>n. n)") auto

declare show_nat.simps [simp del]

text \<open>
  \<^verbatim>\<open>s.split(c)\<close> for a separator of one character: the pieces between the separators,
  never an empty array.
\<close>

fun js_split :: "char \<Rightarrow> string \<Rightarrow> string list" where
  "js_split c [] = [[]]"
| "js_split c (x # xs) =
     (if x = c then [] # js_split c xs
      else (case js_split c xs of [] \<Rightarrow> [[x]] | p # ps \<Rightarrow> (x # p) # ps))"

text \<open>\<^verbatim>\<open>a[0]\<close>: \<^verbatim>\<open>undefined\<close> on an empty array.\<close>

definition index0 :: "string list \<Rightarrow> js_value" where
  "index0 xs = (case xs of [] \<Rightarrow> Other ''undefined'' | x # _ \<Rightarrow> Str x)"

subsection \<open>processAudio\<close>

definition saveApiKey :: "state \<Rightarrow> state" where
  "saveApiKey s = s\<lparr>effects := effects s @ [SetItem ''assemblyai_api_key'' (apiKey s)]\<rparr>"

text \<open>
  The pattern after every fetch: a rejected promise throws what it carries, a response
  that is not \<^verbatim>\<open>ok\<close> throws an \<^verbatim>\<open>Error\<close> with the given message, otherwise the body is
  read.
\<close>

definition fetched_value :: "'a fetched \<Rightarrow> string \<Rightarrow> state \<Rightarrow> 'a res" where
  "fetched_value r msg s =
     (case r of
        Rejected e \<Rightarrow> Throw e s
      | Response ok b \<Rightarrow>
          if \<not> ok then Throw (Error msg) s
          else (case b of Unreadable e \<Rightarrow> Throw e s | Readable j \<Rightarrow> Ok j s))"

text \<open>Step 1: upload the file. The value is \<^verbatim>\<open>audioUrl\<close>.\<close>

definition upload_step :: "env \<Rightarrow> audio_file \<Rightarrow> state \<Rightarrow> js_value res" where
  "upload_step e f s =
     fetched_value (uploadResponse e) ''Failed to upload audio file''
       (s\<lparr>effects := effects s @ [UploadCall (apiKey s) f]\<rparr>)"

text \<open>Step 2: submit the transcription request. The value is \<^verbatim>\<open>transcriptId\<close>.\<close>

definition submit_step :: "env \<Rightarrow> js_value \<Rightarrow> state \<Rightarrow> js_value res" where
  "submit_step e audioUrl s =
     fetched_value (transcriptResponse e) ''Failed to submit transcription request''
       (s\<lparr>effects := effects s @ [SubmitCall (apiKey s) audioUrl ''en_us'' ''slam-1'']\<rparr>)"

text \<open>
  Step 3: the polling loop. The loop variables as declared, the loop condition, one run of
  the loop body, and the loop over the responses that arrive.
\<close>

definition loop_start :: poll_vars where
  "loop_start = \<lparr>result = None, status = Str ''processing'', pollCount = 0\<rparr>"

definition loop_condition :: "poll_vars \<Rightarrow> bool" where
  "loop_condition v \<longleftrightarrow> status v = Str ''processing'' \<or> status v = Str ''queued''"

definition poll_body :: "js_value \<Rightarrow> poll_json fetched \<Rightarrow> poll_vars \<Rightarrow> state \<Rightarrow> poll_vars res" where
  "poll_body transcriptId r v s =
     (case fetched_value r ''Failed to check transcription status''
             (s\<lparr>effects := effects s @ [Sleep 1000, StatusCall (apiKey s) (interp transcriptId)]\<rparr>) of
        Pending v' s' \<Rightarrow> Pending v' s'
      | Throw e s' \<Rightarrow> Throw e s'
      | Ok j s' \<Rightarrow>
          (let v' = \<lparr>result = Some j, status = json_status j, pollCount = pollCount v + 1\<rparr>
           in if status v' = Str ''processing''
              then (let p = min 80 (50 + pollCount v' * 2)
                    in Ok v' (s'\<lparr>processingProgress := p,
                                 processingStage := ''Processing audio... ('' @ show_nat p @ ''%)''\<rparr>))
              else Ok v' s'))"

fun poll_loop :: "js_value \<Rightarrow> poll_json fetched list \<Rightarrow> poll_vars \<Rightarrow> state \<Rightarrow> poll_vars res" where
  "poll_loop transcriptId [] v s = (if loop_condition v then Pending v s else Ok v s)"
| "poll_loop transcriptId (r # rs) v s =
     (if loop_condition v
      then (case poll_body transcriptId r v s of
              Pending v' s' \<Rightarrow> Pending v' s'
            | Throw e s' \<Rightarrow> Throw e s'
            | Ok v' s' \<Rightarrow> poll_loop transcriptId rs v' s')
      else Ok v s)"

text \<open>
  Step 4, after the loop: the branch on the last status. \<^verbatim>\<open>audioFile\<close> is not assigned
  anywhere in \<^verbatim>\<open>processAudio\<close>, so the file read here is the one checked before the
  \<^verbatim>\<open>try\<close>; it is passed in as \<open>f\<close>.
\<close>

definition output_step :: "env \<Rightarrow> audio_file \<Rightarrow> js_value \<Rightarrow> poll_vars \<Rightarrow> state \<Rightarrow> unit res" where
  "output_step e f transcriptId v s =
     (if status v = Str ''completed'' then
        (let s1 = s\<lparr>processingProgress := 90, processingStage := ''Generating output file...''\<rparr>;
             made =
               (if outputType s1 = ''subtitles'' then
                  (let s2 = s1\<lparr>processingStage := ''Generating subtitles...'', processingProgress := 90\<rparr>
                   in case fetched_value (srtResponse e) ''Failed to get SRT file''
                             (s2\<lparr>effects := effects s2 @
                                   [CaptionCall (apiKey s2) (interp transcriptId) (characterLength s2)]\<rparr>) of
                        Pending v' s' \<Rightarrow> Pending v' s'
                      | Throw x s' \<Rightarrow> Throw x s'
                      | Ok t s' \<Rightarrow>
                          Ok (Str t, interp (index0 (js_split CHR ''.'' (name f))) @ ''.srt'') s')
                else
                  (case result v of
                     None \<Rightarrow> Throw (Error ''Cannot read properties of undefined'') s1
                   | Some j \<Rightarrow>
                       Ok (json_text j, interp (index0 (js_split CHR ''.'' (name f))) @ ''.txt'') s1))
         in case made of
              Pending v' s' \<Rightarrow> Pending v' s'
            | Throw x s' \<Rightarrow> Throw x s'
            | Ok (output, filename) s' \<Rightarrow>
                Ok () (s'\<lparr>processingProgress := 100, processingStage := ''Complete!'',
                          effects := effects s' @ [Download output filename],
                          successMessage := ''Your '' @ outputType s' @
                            '' has been successfully processed and downloaded!''\<rparr>))
      else Throw (Error (''Transcription failed with status: '' @ interp (status v))) s)"

text \<open>The body of the \<^verbatim>\<open>try\<close> block.\<close>

definition try_block :: "env \<Rightarrow> audio_file \<Rightarrow> state \<Rightarrow> unit res" where
  "try_block e f s =
     (let s0 = s\<lparr>isLoading := True, errorMessage := '''', successMessage := '''',
                  processingProgress := 10, processingStage := ''Uploading audio file...''\<rparr>
      in case upload_step e f s0 of
           Pending v' s' \<Rightarrow> Pending v' s'
         | Throw x s' \<Rightarrow> Throw x s'
         | Ok audioUrl s1 \<Rightarrow>
             (case submit_step e audioUrl
                     (s1\<lparr>processingProgress := 30,
                         processingStage := ''Submitting transcription request...''\<rparr>) of
                Pending v' s' \<Rightarrow> Pending v' s'
              | Throw x s' \<Rightarrow> Throw x s'
              | Ok transcriptId s2 \<Rightarrow>
                  (case poll_loop transcriptId (pollingResponses e) loop_start
                          (s2\<lparr>processingProgress := 50, processingStage := ''Processing audio...''\<rparr>) of
                     Pending v' s' \<Rightarrow> Pending v' s'
                   | Throw x s' \<Rightarrow> Throw x s'
                   | Ok v s3 \<Rightarrow> output_step e f transcriptId v s3)))"

definition catch_block :: "thrown \<Rightarrow> state \<Rightarrow> state" where
  "catch_block x s =
     s\<lparr>errorMessage := (case x of Error m \<Rightarrow> m | NonError \<Rightarrow> ''An unknown error occurred'')\<rparr>"

definition finally_block :: "state \<Rightarrow> state" where
  "finally_block s = s\<lparr>isLoading := False\<rparr>"

text \<open>
  The whole function. \<open>Waiting\<close> is the run that has not returned: it sits in the polling
  loop and the responses given so far are used up.
\<close>

definition processAudio :: "env \<Rightarrow> state \<Rightarrow> run" where
  "processAudio e s =
     (if apiKey s = '''' then
        Returned (s\<lparr>errorMessage := ''Please enter your AssemblyAI API key''\<rparr>)
      else
        (let s' = saveApiKey s
         in case audioFile s' of
              None \<Rightarrow> Returned (s'\<lparr>errorMessage := ''Please select an audio file''\<rparr>)
            | Some f \<Rightarrow>
                (case try_block e f s' of
                   Pending v s'' \<Rightarrow> Waiting s''
                 | Throw x s'' \<Rightarrow> Returned (finally_block (catch_block x s''))
                 | Ok u s'' \<Rightarrow> Returned (finally_block s''))))"

section \<open>Notions used in the statements\<close>

text \<open>The scenarios of the statements: a chosen file, a filled-in component, a service.\<close>

definition interview :: audio_file where
  "interview = \<lparr>name = ''interview.wav'', mime = ''audio/wav'', bytes = [82, 73, 70, 70]\<rparr>"

definition ready :: state where
  "ready = \<lparr>apiKey = ''key'', audioFile = Some interview, outputType = ''transcript'',
             characterLength = 32, isLoading = False, errorMessage = '''', successMessage = '''',
             processingProgress = 0, processingStage = '''', effects = []\<rparr>"

definition answer :: "string \<Rightarrow> js_value \<Rightarrow> poll_json fetched" where
  "answer st tx = Response True (Readable \<lparr>json_status = Str st, json_text = tx\<rparr>)"

definition service :: "poll_json fetched list \<Rightarrow> env" where
  "service rs =
     \<lparr>uploadResponse = Response True (Readable (Str ''https://cdn.example/upload/1'')),
      transcriptResponse = Response True (Readable (Str ''job1'')),
      pollingResponses = rs,
      srtResponse =
        Response True (Readable ''1\<newline>00:00:00,000 --> 00:00:01,000\<newline>Hello\<newline>'')\<rparr>"

text \<open>
  A status response on which the loop goes round again: the fetch resolved, the response
  is \<^verbatim>\<open>ok\<close>, its JSON was read and its status is \<^verbatim>\<open>processing\<close> or \<^verbatim>\<open>queued\<close>.
\<close>

fun keeps_polling :: "poll_json fetched \<Rightarrow> bool" where
  "keeps_polling (Response ok (Readable j)) =
     (ok \<and> (json_status j = Str ''processing'' \<or> json_status j = Str ''queued''))"
| "keeps_polling (Response ok (Unreadable x)) = False"
| "keeps_polling (Rejected x) = False"

text \<open>The effects of \<open>n\<close> rounds of the loop: the timer first, then one status query.\<close>

definition polls :: "string \<Rightarrow> string \<Rightarrow> nat \<Rightarrow> event list" where
  "polls a i n = concat (replicate n [Sleep 1000, StatusCall a i])"

text \<open>The refs that the polling loop does not assign.\<close>

definition frame :: "state \<Rightarrow> state \<Rightarrow> bool" where
  "frame s s' \<longleftrightarrow>
     apiKey s' = apiKey s \<and> audioFile s' = audioFile s \<and> outputType s' = outputType s \<and>
     characterLength s' = characterLength s \<and> isLoading s' = isLoading s \<and>
     errorMessage s' = errorMessage s \<and> successMessage s' = successMessage s"

text \<open>
  The state in which the loop is entered after a successful upload and submit: the
  assignments of the \<^verbatim>\<open>try\<close> block up to \<^verbatim>\<open>processingProgress.value = 50\<close>, merged.
  Lemma \<open>try_block_polling\<close> shows that this is the state the loop starts from.
\<close>

definition polling_state :: "audio_file \<Rightarrow> js_value \<Rightarrow> state \<Rightarrow> state" where
  "polling_state f audioUrl s =
     s\<lparr>isLoading := True, errorMessage := '''', successMessage := '''',
       effects := effects s @
         [UploadCall (apiKey s) f, SubmitCall (apiKey s) audioUrl ''en_us'' ''slam-1''],
       processingProgress := 50, processingStage := ''Processing audio...''\<rparr>"

text \<open>The kinds of network call in the log.\<close>

fun is_UploadCall :: "event \<Rightarrow> bool" where
  "is_UploadCall (UploadCall a f) = True"
| "is_UploadCall _ = False"

fun is_SubmitCall :: "event \<Rightarrow> bool" where
  "is_SubmitCall (SubmitCall a u l m) = True"
| "is_SubmitCall _ = False"

fun is_CaptionCall :: "event \<Rightarrow> bool" where
  "is_CaptionCall (CaptionCall a i n) = True"
| "is_CaptionCall _ = False"

fun is_StatusCall :: "event \<Rightarrow> bool" where
  "is_StatusCall (StatusCall a i) = True"
| "is_StatusCall _ = False"

text \<open>A selected file of zero bytes.\<close>

definition silence :: audio_file where
  "silence = \<lparr>name = ''silence.wav'', mime = ''audio/wav'', bytes = []\<rparr>"

text \<open>Files with two dots and with no dot in the name; the loop variables after a
  \<^verbatim>\<open>completed\<close> response.\<close>

definition meeting :: audio_file where
  "meeting = \<lparr>name = ''meeting.recording.mp3'', mime = ''audio/mpeg'', bytes = [73, 68, 51]\<rparr>"

definition podcast :: audio_file where
  "podcast = \<lparr>name = ''podcast'', mime = ''audio/mpeg'', bytes = [73, 68, 51]\<rparr>"

definition completed_vars :: poll_vars where
  "completed_vars =
     \<lparr>result = Some \<lparr>json_status = Str ''completed'', json_text = Str ''Hello world''\<rparr>,
      status = Str ''completed'', pollCount = 1\<rparr>"

text \<open>
  The run as far as it has got when only the first \<open>k\<close> status responses have arrived,
  and the progress estimate at that moment.
\<close>

definition run_after :: "env \<Rightarrow> state \<Rightarrow> nat \<Rightarrow> run" where
  "run_after e s k = processAudio (e\<lparr>pollingResponses := take k (pollingResponses e)\<rparr>) s"

definition progress_after :: "env \<Rightarrow> state \<Rightarrow> nat \<Rightarrow> nat" where
  "progress_after e s k = processingProgress (run_state (run_after e s k))"

text \<open>The service that answers queued, processing, processing, completed.\<close>

definition four_polls :: env where
  "four_polls =
     service [answer ''queued'' (Other ''null''), answer ''processing'' (Other ''null''),
              answer ''processing'' (Other ''null''), answer ''completed'' (Str ''Hello world'')]"

text \<open>
  A response on which the code throws: the fetch rejected, the response is not
  \<^verbatim>\<open>ok\<close>, or its body cannot be read; and what is thrown then, given the message of the
  \<^verbatim>\<open>throw new Error(...)\<close> that follows the fetch.
\<close>

fun failed :: "'a fetched \<Rightarrow> bool" where
  "failed (Rejected x) = True"
| "failed (Response ok (Unreadable x)) = True"
| "failed (Response ok (Readable a)) = (\<not> ok)"

fun thrown_by :: "'a fetched \<Rightarrow> string \<Rightarrow> thrown" where
  "thrown_by (Rejected x) msg = x"
| "thrown_by (Response ok (Unreadable x)) msg = (if ok then x else Error msg)"
| "thrown_by (Response ok (Readable a)) msg = Error msg"

section \<open>Lemmas about the steps\<close>

subsection \<open>The polling loop\<close>

lemma polls_Suc: "polls a i (Suc n) = polls a i n @ [Sleep 1000, StatusCall a i]"
  unfolding polls_def by (induction n) auto

lemma polls_0: "polls a i 0 = []" by (simp add: polls_def)

lemma fetched_value_not_Pending: "fetched_value r m s \<noteq> Pending v s'"
  by (auto simp: fetched_value_def split: fetched.splits body.splits)

lemma poll_body_not_Pending: "poll_body tid r v s \<noteq> Pending v' s'"
  by (auto simp: poll_body_def fetched_value_def Let_def split: fetched.splits body.splits)

lemma frame_refl: "frame s s"
  by (simp add: frame_def)

lemma frame_trans: "frame s s' \<Longrightarrow> frame s' s'' \<Longrightarrow> frame s s''"
  by (simp add: frame_def)

lemma poll_body_keeps:
  assumes "keeps_polling r"
  shows "\<exists>v' s'. poll_body tid r v s = Ok v' s' \<and> loop_condition v' \<and>
           pollCount v' = Suc (pollCount v) \<and> frame s s' \<and>
           effects s' = effects s @ [Sleep 1000, StatusCall (apiKey s) (interp tid)] \<and>
           processingProgress s' =
             (if status v' = Str ''processing'' then min 80 (50 + 2 * Suc (pollCount v))
              else processingProgress s) \<and>
           (\<exists>j. r = Response True (Readable j) \<and> status v' = json_status j)"
  using assms
  by (cases r rule: keeps_polling.cases)
     (auto simp: poll_body_def fetched_value_def Let_def loop_condition_def frame_def)

lemma poll_body_stops:
  assumes "\<not> keeps_polling r"
  shows "\<exists>s'. frame s s' \<and> processingProgress s' = processingProgress s \<and>
           effects s' = effects s @ [Sleep 1000, StatusCall (apiKey s) (interp tid)] \<and>
           ((\<exists>x. poll_body tid r v s = Throw x s') \<or>
            (\<exists>v' j. poll_body tid r v s = Ok v' s' \<and> \<not> loop_condition v' \<and>
                r = Response True (Readable j) \<and> status v' = json_status j \<and>
                result v' = Some j))"
  using assms
  by (cases r rule: keeps_polling.cases)
     (auto simp: poll_body_def fetched_value_def Let_def loop_condition_def frame_def)

lemma poll_loop_stopped: "\<not> loop_condition v \<Longrightarrow> poll_loop tid rs v s = Ok v s"
  by (cases rs) auto

lemma poll_loop_append:
  "poll_loop tid (xs @ ys) v s =
     (case poll_loop tid xs v s of
        Pending v' s' \<Rightarrow> poll_loop tid ys v' s'
      | Throw x s' \<Rightarrow> Throw x s'
      | Ok v' s' \<Rightarrow> Ok v' s')"
proof (induction xs arbitrary: v s)
  case Nil
  then show ?case by (simp add: poll_loop_stopped)
next
  case (Cons r xs)
  then show ?case by (simp add: poll_body_not_Pending split: res.splits)
qed

lemma poll_loop_keeps:
  assumes "loop_condition v" and "\<forall>r\<in>set rs. keeps_polling r"
  shows "\<exists>v' s'. poll_loop tid rs v s = Pending v' s' \<and> loop_condition v' \<and>
           pollCount v' = pollCount v + length rs \<and> frame s s' \<and>
           effects s' = effects s @ polls (apiKey s) (interp tid) (length rs)"
  using assms
proof (induction rs arbitrary: v s rule: rev_induct)
  case Nil
  then show ?case by (simp add: polls_0 frame_refl)
next
  case (snoc r rs)
  then obtain v1 s1 where 1: "poll_loop tid rs v s = Pending v1 s1" "loop_condition v1"
      "pollCount v1 = pollCount v + length rs" "frame s s1"
      "effects s1 = effects s @ polls (apiKey s) (interp tid) (length rs)"
    by fastforce
  from snoc.prems have "keeps_polling r" by simp
  from poll_body_keeps [OF this, of tid v1 s1]
  obtain v2 s2 where 2: "poll_body tid r v1 s1 = Ok v2 s2" "loop_condition v2"
      "pollCount v2 = Suc (pollCount v1)" "frame s1 s2"
      "effects s2 = effects s1 @ [Sleep 1000, StatusCall (apiKey s1) (interp tid)]"
    by blast
  have k: "apiKey s1 = apiKey s" using 1(4) by (simp add: frame_def)
  have "poll_loop tid (rs @ [r]) v s = Pending v2 s2"
    by (simp add: poll_loop_append 1 2)
  moreover have "effects s2 = effects s @ polls (apiKey s) (interp tid) (length (rs @ [r]))"
    by (simp add: 2 1 k polls_Suc)
  ultimately show ?case
    using 1 2 frame_trans by fastforce
qed

lemma poll_loop_Pending_D:
  assumes "poll_loop tid rs v s = Pending v' s'"
  shows "loop_condition v \<and> (\<forall>r\<in>set rs. keeps_polling r)"
  using assms
proof (induction rs arbitrary: v s)
  case Nil
  then show ?case by (simp split: if_splits)
next
  case (Cons r rs)
  from Cons.prems have c: "loop_condition v" by (simp split: if_splits)
  show ?case
  proof (cases "keeps_polling r")
    case True
    from poll_body_keeps [OF this, of tid v s]
    obtain v1 s1 where "poll_body tid r v s = Ok v1 s1" by blast
    with Cons.prems c have "poll_loop tid rs v1 s1 = Pending v' s'" by simp
    from Cons.IH [OF this] True c show ?thesis by simp
  next
    case False
    from poll_body_stops [OF this, of s tid v] Cons.prems c
    show ?thesis by (auto simp: poll_loop_stopped)
  qed
qed

subsection \<open>The run around the loop\<close>

lemma try_block_polling:
  assumes "uploadResponse e = Response True (Readable url)"
    and "transcriptResponse e = Response True (Readable tid)"
  shows "try_block e f s =
     (case poll_loop tid (pollingResponses e) loop_start (polling_state f url s) of
        Pending v' s' \<Rightarrow> Pending v' s'
      | Throw x s' \<Rightarrow> Throw x s'
      | Ok v s3 \<Rightarrow> output_step e f tid v s3)"
  using assms
  by (simp add: try_block_def upload_step_def submit_step_def fetched_value_def polling_state_def)

lemma output_step_not_Pending: "output_step e f tid v s \<noteq> Pending v' s'"
  by (auto simp: output_step_def fetched_value_def Let_def split: fetched.splits body.splits option.splits)

text \<open>
  The pieces of a split contain no separator, and joined by the separator they give the
  string back.
\<close>

lemma js_split_nonempty: "js_split c n \<noteq> []"
  by (induction n) (auto split: list.splits)

lemma js_split_segments: "\<forall>p\<in>set (js_split c n). c \<notin> set p"
  by (induction n) (auto split: list.splits)

lemma js_split_join: "concat (map (\<lambda>p. c # p) (js_split c n)) = c # n"
  by (induction n) (auto split: list.splits)

lemma stem: "interp (index0 (js_split c n)) = takeWhile (\<lambda>x. x \<noteq> c) n"
  using js_split_nonempty [of c]
  by (induction n) (auto simp: index0_def interp_def split: list.splits)

lemma processAudio_polling:
  assumes "apiKey s \<noteq> []" and "audioFile s = Some f"
    and "uploadResponse e = Response True (Readable url)"
    and "transcriptResponse e = Response True (Readable tid)"
  shows "processAudio e s =
     (case poll_loop tid (pollingResponses e) loop_start (polling_state f url (saveApiKey s)) of
        Pending v' s' \<Rightarrow> Waiting s'
      | Throw x s' \<Rightarrow> Returned (finally_block (catch_block x s'))
      | Ok v s3 \<Rightarrow>
          (case output_step e f tid v s3 of
             Pending v' s' \<Rightarrow> Waiting s'
           | Throw x s' \<Rightarrow> Returned (finally_block (catch_block x s'))
           | Ok u s' \<Rightarrow> Returned (finally_block s')))"
  using assms
  by (simp add: processAudio_def try_block_polling saveApiKey_def split: res.splits)

lemma processAudio_Waiting_D:
  assumes "processAudio e s = Waiting s1"
  shows "\<exists>f url tid v. apiKey s \<noteq> [] \<and> audioFile s = Some f \<and>
           uploadResponse e = Response True (Readable url) \<and>
           transcriptResponse e = Response True (Readable tid) \<and>
           poll_loop tid (pollingResponses e) loop_start (polling_state f url (saveApiKey s)) = Pending v s1"
proof -
  from assms have k: "apiKey s \<noteq> []"
    by (auto simp: processAudio_def)
  from assms k obtain f where f: "audioFile s = Some f"
    by (cases "audioFile s") (auto simp: processAudio_def saveApiKey_def)
  from assms k f obtain v where t: "try_block e f (saveApiKey s) = Pending v s1"
    by (auto simp: processAudio_def Let_def saveApiKey_def split: res.splits)
  from t obtain url where u: "uploadResponse e = Response True (Readable url)"
    by (auto simp: try_block_def upload_step_def fetched_value_def Let_def
             split: fetched.splits body.splits if_splits)
  from t u obtain tid where i: "transcriptResponse e = Response True (Readable tid)"
    by (auto simp: try_block_def upload_step_def submit_step_def fetched_value_def Let_def
             split: fetched.splits body.splits if_splits)
  from t have "poll_loop tid (pollingResponses e) loop_start (polling_state f url (saveApiKey s)) = Pending v s1"
    by (auto simp: try_block_polling [OF u i] output_step_not_Pending split: res.splits)
  with k f u i show ?thesis by blast
qed

lemma loop_condition_start: "loop_condition loop_start"
  by (simp add: loop_condition_def loop_start_def)

lemma poll_loop_terminal:
  assumes c: "loop_condition v" and pre: "\<forall>r\<in>set pre. keeps_polling r" and r: "\<not> keeps_polling r"
  shows "\<exists>s'. frame s s' \<and>
           effects s' = effects s @ polls (apiKey s) (interp tid) (Suc (length pre)) \<and>
           ((\<exists>x. poll_loop tid (pre @ r # post) v s = Throw x s') \<or>
            (\<exists>v' j. poll_loop tid (pre @ r # post) v s = Ok v' s' \<and> \<not> loop_condition v' \<and>
                r = Response True (Readable j) \<and> status v' = json_status j \<and> result v' = Some j))"
proof -
  from poll_loop_keeps [OF c pre, of tid s]
  obtain v1 s1 where 1: "poll_loop tid pre v s = Pending v1 s1" "loop_condition v1" "frame s s1"
      "effects s1 = effects s @ polls (apiKey s) (interp tid) (length pre)"
    by blast
  from poll_body_stops [OF r, of s1 tid v1]
  obtain s2 where 2: "frame s1 s2"
      "effects s2 = effects s1 @ [Sleep 1000, StatusCall (apiKey s1) (interp tid)]"
      "(\<exists>x. poll_body tid r v1 s1 = Throw x s2) \<or>
       (\<exists>v' j. poll_body tid r v1 s1 = Ok v' s2 \<and> \<not> loop_condition v' \<and>
          r = Response True (Readable j) \<and> status v' = json_status j \<and> result v' = Some j)"
    by blast
  have k: "apiKey s1 = apiKey s" using 1(3) by (simp add: frame_def)
  have e: "effects s2 = effects s @ polls (apiKey s) (interp tid) (Suc (length pre))"
    by (simp add: 1 2 k polls_Suc)
  have f: "frame s s2" using 1(3) 2(1) by (rule frame_trans)
  from 2(3) show ?thesis
  proof
    assume "\<exists>x. poll_body tid r v1 s1 = Throw x s2"
    then obtain x where "poll_body tid r v1 s1 = Throw x s2" ..
    then have "poll_loop tid (pre @ r # post) v s = Throw x s2"
      by (simp add: poll_loop_append 1)
    with e f show ?thesis by blast
  next
    assume "\<exists>v' j. poll_body tid r v1 s1 = Ok v' s2 \<and> \<not> loop_condition v' \<and>
          r = Response True (Readable j) \<and> status v' = json_status j \<and> result v' = Some j"
    then obtain v' j where b: "poll_body tid r v1 s1 = Ok v' s2" "\<not> loop_condition v'"
        "r = Response True (Readable j)" "status v' = json_status j" "result v' = Some j"
      by blast
    then have "poll_loop tid (pre @ r # post) v s = Ok v' s2"
      by (simp add: poll_loop_append 1 poll_loop_stopped)
    with e f b show ?thesis by blast
  qed
qed

lemma poll_body_exit:
  assumes "\<not> keeps_polling (Response True (Readable j))"
  shows "\<exists>v' s'. poll_body tid (Response True (Readable j)) v s = Ok v' s' \<and>
           \<not> loop_condition v' \<and> status v' = json_status j \<and> result v' = Some j \<and>
           frame s s' \<and> processingProgress s' = processingProgress s \<and>
           effects s' = effects s @ [Sleep 1000, StatusCall (apiKey s) (interp tid)]"
  using assms
  by (auto simp: poll_body_def fetched_value_def Let_def loop_condition_def frame_def)

lemma poll_loop_exit:
  assumes c: "loop_condition v" and pre: "\<forall>r\<in>set pre. keeps_polling r"
    and r: "\<not> keeps_polling (Response True (Readable j))"
  shows "\<exists>v' s'. poll_loop tid (pre @ Response True (Readable j) # post) v s = Ok v' s' \<and>
           status v' = json_status j \<and> result v' = Some j \<and> frame s s' \<and>
           effects s' = effects s @ polls (apiKey s) (interp tid) (Suc (length pre))"
proof -
  from poll_loop_keeps [OF c pre, of tid s]
  obtain v1 s1 where 1: "poll_loop tid pre v s = Pending v1 s1" "loop_condition v1" "frame s s1"
      "effects s1 = effects s @ polls (apiKey s) (interp tid) (length pre)"
    by blast
  from poll_body_exit [OF r, of tid v1 s1]
  obtain v2 s2 where 2: "poll_body tid (Response True (Readable j)) v1 s1 = Ok v2 s2"
      "\<not> loop_condition v2" "status v2 = json_status j" "result v2 = Some j" "frame s1 s2"
      "effects s2 = effects s1 @ [Sleep 1000, StatusCall (apiKey s1) (interp tid)]"
    by blast
  have k: "apiKey s1 = apiKey s" using 1(3) by (simp add: frame_def)
  have "poll_loop tid (pre @ Response True (Readable j) # post) v s = Ok v2 s2"
    by (simp add: poll_loop_append 1 2 poll_loop_stopped)
  moreover have "effects s2 = effects s @ polls (apiKey s) (interp tid) (Suc (length pre))"
    by (simp add: 1 2 k polls_Suc)
  moreover have "frame s s2" using 1(3) 2(5) by (rule frame_trans)
  ultimately show ?thesis using 2 by blast
qed

lemma polling_state_fields:
  "apiKey (polling_state f url (saveApiKey s)) = apiKey s"
  "audioFile (polling_state f url (saveApiKey s)) = audioFile s"
  "outputType (polling_state f url (saveApiKey s)) = outputType s"
  "characterLength (polling_state f url (saveApiKey s)) = characterLength s"
  "isLoading (polling_state f url (saveApiKey s))"
  "errorMessage (polling_state f url (saveApiKey s)) = []"
  "successMessage (polling_state f url (saveApiKey s)) = []"
  "processingProgress (polling_state f url (saveApiKey s)) = 50"
  "effects (polling_state f url (saveApiKey s)) =
     effects s @ [SetItem ''assemblyai_api_key'' (apiKey s), UploadCall (apiKey s) f,
                  SubmitCall (apiKey s) url ''en_us'' ''slam-1'']"
  by (simp_all add: polling_state_def saveApiKey_def)

text \<open>The run up to the exit of the loop on a readable response.\<close>

lemma processAudio_exit:
  assumes k: "apiKey s \<noteq> []" and f: "audioFile s = Some f"
    and u: "uploadResponse e = Response True (Readable url)"
    and t: "transcriptResponse e = Response True (Readable tid)"
    and rs: "pollingResponses e = pre @ Response True (Readable j) # post"
    and pre: "\<forall>r\<in>set pre. keeps_polling r"
    and r: "\<not> keeps_polling (Response True (Readable j))"
  shows "\<exists>v s3. processAudio e s =
           (case output_step e f tid v s3 of
              Pending v' s' \<Rightarrow> Waiting s'
            | Throw x s' \<Rightarrow> Returned (finally_block (catch_block x s'))
            | Ok u s' \<Rightarrow> Returned (finally_block s')) \<and>
           status v = json_status j \<and> result v = Some j \<and>
           apiKey s3 = apiKey s \<and> outputType s3 = outputType s \<and>
           characterLength s3 = characterLength s \<and> successMessage s3 = [] \<and>
           errorMessage s3 = [] \<and>
           effects s3 = effects s @
             [SetItem ''assemblyai_api_key'' (apiKey s), UploadCall (apiKey s) f,
              SubmitCall (apiKey s) url ''en_us'' ''slam-1''] @
             polls (apiKey s) (interp tid) (Suc (length pre))"
proof -
  from poll_loop_exit [OF loop_condition_start pre r, of tid post "polling_state f url (saveApiKey s)"]
  obtain v s3 where 1:
      "poll_loop tid (pre @ Response True (Readable j) # post) loop_start
         (polling_state f url (saveApiKey s)) = Ok v s3"
      "status v = json_status j" "result v = Some j"
      "frame (polling_state f url (saveApiKey s)) s3"
      "effects s3 = effects (polling_state f url (saveApiKey s)) @
         polls (apiKey (polling_state f url (saveApiKey s))) (interp tid) (Suc (length pre))"
    by blast
  have "processAudio e s =
           (case output_step e f tid v s3 of
              Pending v' s' \<Rightarrow> Waiting s'
            | Throw x s' \<Rightarrow> Returned (finally_block (catch_block x s'))
            | Ok u s' \<Rightarrow> Returned (finally_block s'))"
    by (simp add: processAudio_polling [OF k f u t] rs 1(1))
  moreover from 1(4) have "apiKey s3 = apiKey s" "outputType s3 = outputType s"
      "characterLength s3 = characterLength s" "successMessage s3 = []" "errorMessage s3 = []"
    by (simp_all add: frame_def polling_state_fields)
  moreover from 1(5) have "effects s3 = effects s @
             [SetItem ''assemblyai_api_key'' (apiKey s), UploadCall (apiKey s) f,
              SubmitCall (apiKey s) url ''en_us'' ''slam-1''] @
             polls (apiKey s) (interp tid) (Suc (length pre))"
    by (simp add: polling_state_fields)
  ultimately show ?thesis using 1(2,3) by blast
qed

lemma output_step_failed:
  assumes "status v \<noteq> Str ''completed''"
  shows "output_step e f tid v s =
           Throw (Error (''Transcription failed with status: '' @ interp (status v))) s"
  using assms by (simp add: output_step_def)

lemma output_step_transcript:
  assumes "status v = Str ''completed''" and "outputType s \<noteq> ''subtitles''"
    and "result v = Some j"
  shows "\<exists>s'. output_step e f tid v s = Ok () s' \<and>
           effects s' = effects s @
             [Download (json_text j) (takeWhile (\<lambda>c. c \<noteq> CHR ''.'') (name f) @ ''.txt'')] \<and>
           errorMessage s' = errorMessage s \<and> processingProgress s' = 100 \<and>
           successMessage s' =
             ''Your '' @ outputType s @ '' has been successfully processed and downloaded!''"
  using assms by (simp add: output_step_def stem)

lemma output_step_subtitles:
  assumes "status v = Str ''completed''" and "outputType s = ''subtitles''"
    and "srtResponse e = Response True (Readable t)"
  shows "\<exists>s'. output_step e f tid v s = Ok () s' \<and>
           effects s' = effects s @
             [CaptionCall (apiKey s) (interp tid) (characterLength s),
              Download (Str t) (takeWhile (\<lambda>c. c \<noteq> CHR ''.'') (name f) @ ''.srt'')] \<and>
           errorMessage s' = errorMessage s \<and> processingProgress s' = 100 \<and>
           successMessage s' =
             ''Your subtitles has been successfully processed and downloaded!''"
  using assms by (simp add: output_step_def stem fetched_value_def)

lemma output_step_subtitles_failed:
  assumes "status v = Str ''completed''" and "outputType s = ''subtitles''"
    and "srtResponse e = Response False b"
  shows "\<exists>s'. output_step e f tid v s = Throw (Error ''Failed to get SRT file'') s' \<and>
           effects s' = effects s @ [CaptionCall (apiKey s) (interp tid) (characterLength s)] \<and>
           successMessage s' = successMessage s \<and> processingProgress s' = 90"
  using assms by (simp add: output_step_def fetched_value_def)

lemma finally_catch_fields:
  "isLoading (finally_block (catch_block x s)) = False"
  "errorMessage (finally_block (catch_block (Error m) s)) = m"
  "successMessage (finally_block (catch_block x s)) = successMessage s"
  "processingProgress (finally_block (catch_block x s)) = processingProgress s"
  "effects (finally_block (catch_block x s)) = effects s"
  by (simp_all add: finally_block_def catch_block_def)

lemma finally_fields:
  "isLoading (finally_block s) = False"
  "errorMessage (finally_block s) = errorMessage s"
  "successMessage (finally_block s) = successMessage s"
  "processingProgress (finally_block s) = processingProgress s"
  "effects (finally_block s) = effects s"
  by (simp_all add: finally_block_def)

subsection \<open>The shape of the log\<close>

lemma polls_Cons: "polls a i (Suc n) = Sleep 1000 # StatusCall a i # polls a i n"
  by (simp add: polls_def)

lemma filter_polls:
  "filter is_UploadCall (polls a i n) = []"
  "filter is_SubmitCall (polls a i n) = []"
  "filter is_CaptionCall (polls a i n) = []"
  by (induction n) (simp_all add: polls_0 polls_Cons)

lemma status_calls_polls: "length (filter is_StatusCall (polls a i n)) = n"
  by (induction n) (simp_all add: polls_0 polls_Cons)

lemma poll_body_any:
  "frame s (state_of (poll_body tid r v s)) \<and>
   effects (state_of (poll_body tid r v s)) =
     effects s @ [Sleep 1000, StatusCall (apiKey s) (interp tid)]"
  by (auto simp: poll_body_def fetched_value_def Let_def frame_def
           split: fetched.splits body.splits)

lemma poll_loop_any:
  "\<exists>n\<le>length rs. frame s (state_of (poll_loop tid rs v s)) \<and>
     effects (state_of (poll_loop tid rs v s)) = effects s @ polls (apiKey s) (interp tid) n"
proof (induction rs arbitrary: v s)
  case Nil
  show ?case by (simp add: polls_0 frame_refl)
next
  case (Cons r rs)
  show ?case
  proof (cases "loop_condition v")
    case False
    then show ?thesis by (intro exI [of _ 0]) (simp add: polls_0 frame_refl)
  next
    case True
    note b = poll_body_any [of s tid r v]
    show ?thesis
    proof (cases "poll_body tid r v s")
      case (Pending v' s')
      then show ?thesis by (simp add: poll_body_not_Pending)
    next
      case (Throw x s')
      with b True have "frame s (state_of (poll_loop tid (r # rs) v s)) \<and>
          effects (state_of (poll_loop tid (r # rs) v s)) =
            effects s @ polls (apiKey s) (interp tid) (Suc 0)"
        by (simp add: polls_Cons polls_0)
      then show ?thesis by (intro exI [of _ "Suc 0"]) simp
    next
      case (Ok v' s')
      from Cons.IH [of s' v'] obtain n where n: "n \<le> length rs"
          "frame s' (state_of (poll_loop tid rs v' s'))"
          "effects (state_of (poll_loop tid rs v' s')) =
             effects s' @ polls (apiKey s') (interp tid) n"
        by blast
      from b Ok have s': "frame s s'"
          "effects s' = effects s @ [Sleep 1000, StatusCall (apiKey s) (interp tid)]"
        by simp_all
      then have k: "apiKey s' = apiKey s" by (simp add: frame_def)
      have "frame s (state_of (poll_loop tid (r # rs) v s)) \<and>
          effects (state_of (poll_loop tid (r # rs) v s)) =
            effects s @ polls (apiKey s) (interp tid) (Suc n)"
        using True Ok n s' k frame_trans [OF s'(1) n(2)] by (simp add: polls_Cons)
      with n(1) show ?thesis by (intro exI [of _ "Suc n"]) simp
    qed
  qed
qed

lemma output_step_any:
  "\<exists>new. effects (state_of (output_step e f tid v s)) = effects s @ new \<and>
     filter is_UploadCall new = [] \<and> filter is_SubmitCall new = [] \<and>
     length (filter is_CaptionCall new) \<le> 1 \<and> filter is_StatusCall new = []"
  by (auto simp: output_step_def fetched_value_def Let_def
           split: fetched.splits body.splits option.splits)

lemma try_block_any:
  "\<exists>rest. effects (state_of (try_block e f s)) = effects s @ UploadCall (apiKey s) f # rest \<and>
     filter is_UploadCall rest = [] \<and> length (filter is_SubmitCall rest) \<le> 1 \<and>
     length (filter is_CaptionCall rest) \<le> 1 \<and>
     length (filter is_StatusCall rest) \<le> length (pollingResponses e)"
proof -
  consider (up) "\<forall>url. uploadResponse e \<noteq> Response True (Readable url)"
    | (sub) url where "uploadResponse e = Response True (Readable url)"
        "\<forall>tid. transcriptResponse e \<noteq> Response True (Readable tid)"
    | (poll) url tid where "uploadResponse e = Response True (Readable url)"
        "transcriptResponse e = Response True (Readable tid)"
    by blast
  then show ?thesis
  proof cases
    case up
    then have "effects (state_of (try_block e f s)) = effects s @ [UploadCall (apiKey s) f]"
      by (auto simp: try_block_def upload_step_def fetched_value_def Let_def
               split: fetched.splits body.splits)
    then show ?thesis by simp
  next
    case sub
    then have "effects (state_of (try_block e f s)) =
        effects s @ [UploadCall (apiKey s) f, SubmitCall (apiKey s) url ''en_us'' ''slam-1'']"
      by (auto simp: try_block_def upload_step_def submit_step_def fetched_value_def Let_def
               split: fetched.splits body.splits)
    then show ?thesis by simp
  next
    case poll
    let ?p = "polling_state f url s"
    let ?l = "poll_loop tid (pollingResponses e) loop_start ?p"
    note t = try_block_polling [OF poll, of f s]
    from poll_loop_any [of "pollingResponses e" ?p tid loop_start]
    obtain n where n: "frame ?p (state_of ?l)"
        "effects (state_of ?l) = effects ?p @ polls (apiKey ?p) (interp tid) n"
        and nl: "n \<le> length (pollingResponses e)"
      by blast
    have p: "effects ?p = effects s @
        [UploadCall (apiKey s) f, SubmitCall (apiKey s) url ''en_us'' ''slam-1'']"
      by (simp add: polling_state_def)
    show ?thesis
    proof (cases ?l)
      case (Pending v' s')
      with t n p have "effects (state_of (try_block e f s)) =
          effects s @ UploadCall (apiKey s) f #
            (SubmitCall (apiKey s) url ''en_us'' ''slam-1'' # polls (apiKey ?p) (interp tid) n)"
        by simp
      then show ?thesis
        by (intro exI [of _ "SubmitCall (apiKey s) url ''en_us'' ''slam-1'' #
              polls (apiKey ?p) (interp tid) n"])
           (use nl in \<open>simp add: filter_polls status_calls_polls\<close>)
    next
      case (Throw x s')
      with t n p have "effects (state_of (try_block e f s)) =
          effects s @ UploadCall (apiKey s) f #
            (SubmitCall (apiKey s) url ''en_us'' ''slam-1'' # polls (apiKey ?p) (interp tid) n)"
        by simp
      then show ?thesis
        by (intro exI [of _ "SubmitCall (apiKey s) url ''en_us'' ''slam-1'' #
              polls (apiKey ?p) (interp tid) n"])
           (use nl in \<open>simp add: filter_polls status_calls_polls\<close>)
    next
      case (Ok v s3)
      from output_step_any [of e f tid v s3]
      obtain new where o: "effects (state_of (output_step e f tid v s3)) = effects s3 @ new"
          "filter is_UploadCall new = []" "filter is_SubmitCall new = []"
          "length (filter is_CaptionCall new) \<le> 1" "filter is_StatusCall new = []"
        by blast
      from Ok t n p o(1) have "effects (state_of (try_block e f s)) =
          effects s @ UploadCall (apiKey s) f #
            (SubmitCall (apiKey s) url ''en_us'' ''slam-1'' # polls (apiKey ?p) (interp tid) n @ new)"
        by simp
      then show ?thesis
        by (intro exI [of _ "SubmitCall (apiKey s) url ''en_us'' ''slam-1'' #
              polls (apiKey ?p) (interp tid) n @ new"])
           (use o(2,3,4,5) nl in \<open>simp add: filter_polls status_calls_polls\<close>)
    qed
  qed
qed

lemma processAudio_any:
  assumes "apiKey s \<noteq> []" and "audioFile s = Some f"
  shows "\<exists>rest. effects (run_state (processAudio e s)) =
           effects s @ SetItem ''assemblyai_api_key'' (apiKey s) # UploadCall (apiKey s) f # rest \<and>
     filter is_UploadCall rest = [] \<and> length (filter is_SubmitCall rest) \<le> 1 \<and>
     length (filter is_CaptionCall rest) \<le> 1 \<and>
     length (filter is_StatusCall rest) \<le> length (pollingResponses e)"
proof -
  from try_block_any [of e f "saveApiKey s"]
  obtain rest where r: "effects (state_of (try_block e f (saveApiKey s))) =
        effects (saveApiKey s) @ UploadCall (apiKey (saveApiKey s)) f # rest"
     "filter is_UploadCall rest = []" "length (filter is_SubmitCall rest) \<le> 1"
     "length (filter is_CaptionCall rest) \<le> 1"
     "length (filter is_StatusCall rest) \<le> length (pollingResponses e)"
    by blast
  have "effects (run_state (processAudio e s)) = effects (state_of (try_block e f (saveApiKey s)))"
    using assms
    by (simp add: processAudio_def saveApiKey_def finally_block_def catch_block_def
             split: res.splits)
  with r show ?thesis by (simp add: saveApiKey_def)
qed

lemmas run_defs = processAudio_def try_block_def upload_step_def submit_step_def poll_body_def
  output_step_def fetched_value_def saveApiKey_def finally_block_def catch_block_def
  loop_start_def loop_condition_def interp_def index0_def Let_def

lemmas scene_defs = service_def ready_def answer_def interview_def

lemma processAudio_no_key:
  assumes "apiKey s = []"
  shows "processAudio e s = Returned (s\<lparr>errorMessage := ''Please enter your AssemblyAI API key''\<rparr>)"
  using assms by (simp add: processAudio_def)

lemma processAudio_no_file:
  assumes "apiKey s \<noteq> []" and "audioFile s = None"
  shows "processAudio e s =
           Returned (s\<lparr>effects := effects s @ [SetItem ''assemblyai_api_key'' (apiKey s)],
                       errorMessage := ''Please select an audio file''\<rparr>)"
  using assms by (simp add: processAudio_def saveApiKey_def)

subsection \<open>The progress estimate\<close>

lemma output_step_env: "output_step (e\<lparr>pollingResponses := xs\<rparr>) f tid v s = output_step e f tid v s"
  by (cases "status v = Str ''completed''"; cases "outputType s = ''subtitles''")
     (simp_all add: output_step_def Let_def)

lemma run_after_polling:
  assumes "apiKey s \<noteq> []" and "audioFile s = Some f"
    and "uploadResponse e = Response True (Readable url)"
    and "transcriptResponse e = Response True (Readable tid)"
  shows "run_after e s n =
     (case poll_loop tid (take n (pollingResponses e)) loop_start
             (polling_state f url (saveApiKey s)) of
        Pending v' s' \<Rightarrow> Waiting s'
      | Throw x s' \<Rightarrow> Returned (finally_block (catch_block x s'))
      | Ok v s3 \<Rightarrow>
          (case output_step e f tid v s3 of
             Pending v' s' \<Rightarrow> Waiting s'
           | Throw x s' \<Rightarrow> Returned (finally_block (catch_block x s'))
           | Ok u s' \<Rightarrow> Returned (finally_block s')))"
  unfolding run_after_def
  by (subst processAudio_polling [where f = f and url = url and tid = tid])
     (simp_all add: assms output_step_env cong: res.case_cong)

lemma run_after_Waiting_D:
  assumes "run_after e s n = Waiting s1"
  shows "\<exists>f url tid v. apiKey s \<noteq> [] \<and> audioFile s = Some f \<and>
           uploadResponse e = Response True (Readable url) \<and>
           transcriptResponse e = Response True (Readable tid) \<and>
           poll_loop tid (take n (pollingResponses e)) loop_start
             (polling_state f url (saveApiKey s)) = Pending v s1"
  using processAudio_Waiting_D [OF assms [unfolded run_after_def]] by simp

lemma progress_of_case:
  "processingProgress (run_state
     (case r of Pending v' s' \<Rightarrow> Waiting s'
      | Throw x s' \<Rightarrow> Returned (finally_block (catch_block x s'))
      | Ok u s' \<Rightarrow> Returned (finally_block s'))) = processingProgress (state_of r)"
  by (cases r) (simp_all add: finally_block_def catch_block_def)

lemma poll_loop_Pending_vars:
  assumes "poll_loop tid rs v s = Pending v1 s1"
  shows "loop_condition v1 \<and> pollCount v1 = pollCount v + length rs"
proof -
  from poll_loop_Pending_D [OF assms]
  have "loop_condition v" "\<forall>r\<in>set rs. keeps_polling r" by simp_all
  from poll_loop_keeps [OF this, of tid s] assms show ?thesis by auto
qed

lemma poll_loop_progress:
  assumes "poll_loop tid rs v s = Pending v1 s1"
    and "50 \<le> processingProgress s"
    and "processingProgress s \<le> min 80 (50 + 2 * pollCount v)"
  shows "50 \<le> processingProgress s1 \<and>
         processingProgress s1 \<le> min 80 (50 + 2 * pollCount v1) \<and>
         processingProgress s \<le> processingProgress s1"
  using assms
proof (induction rs arbitrary: v s)
  case Nil
  then show ?case by (simp split: if_splits)
next
  case (Cons r rs)
  from poll_loop_Pending_D [OF Cons.prems(1)]
  have c: "loop_condition v" and r: "keeps_polling r" by simp_all
  from poll_body_keeps [OF r, of tid v s]
  obtain v2 s2 where 2: "poll_body tid r v s = Ok v2 s2" "pollCount v2 = Suc (pollCount v)"
      "processingProgress s2 =
         (if status v2 = Str ''processing'' then min 80 (50 + 2 * Suc (pollCount v))
          else processingProgress s)"
    by blast
  from Cons.prems(1) c 2(1) have l: "poll_loop tid rs v2 s2 = Pending v1 s1" by simp
  from 2(2,3) Cons.prems(2,3)
  have i: "50 \<le> processingProgress s2" "processingProgress s2 \<le> min 80 (50 + 2 * pollCount v2)"
      "processingProgress s \<le> processingProgress s2"
    by (simp_all split: if_splits)
  from Cons.IH [OF l i(1,2)] i(3) show ?case by simp
qed

lemma poll_loop_snoc:
  assumes "poll_loop tid xs v s = Pending v1 s1"
  shows "poll_loop tid (xs @ [r]) v s =
     (case poll_body tid r v1 s1 of
        Pending a b \<Rightarrow> Pending a b
      | Throw x s' \<Rightarrow> Throw x s'
      | Ok v' s' \<Rightarrow> if loop_condition v' then Pending v' s' else Ok v' s')"
  using poll_loop_Pending_vars [OF assms]
  by (simp add: poll_loop_append assms split: res.splits)

lemma output_step_completed_progress:
  assumes "status v = Str ''completed''"
  shows "90 \<le> processingProgress (state_of (output_step e f tid v s))"
  using assms
  by (auto simp: output_step_def fetched_value_def Let_def
           split: fetched.splits body.splits option.splits)

lemma polling_state_progress:
  "processingProgress (polling_state f url s) = 50"
  by (simp add: polling_state_def)

lemma effects_of_case:
  "effects (run_state
     (case r of Pending v' s' \<Rightarrow> Waiting s'
      | Throw x s' \<Rightarrow> Returned (finally_block (catch_block x s'))
      | Ok u s' \<Rightarrow> Returned (finally_block s'))) = effects (state_of r)"
  by (cases r) (simp_all add: finally_block_def catch_block_def)

lemma progress_next:
  assumes w: "run_after e s (Suc k) = Waiting s2" and len: "k < length (pollingResponses e)"
    and j: "pollingResponses e ! k = Response True (Readable j)"
  shows "processingProgress s2 =
           (if json_status j = Str ''processing'' then min 80 (50 + 2 * Suc k)
            else progress_after e s k)"
proof -
  let ?rs = "pollingResponses e"
  from run_after_Waiting_D [OF w]
  obtain f url tid v2 where k: "apiKey s \<noteq> []" and f: "audioFile s = Some f"
    and u: "uploadResponse e = Response True (Readable url)"
    and t: "transcriptResponse e = Response True (Readable tid)"
    and l: "poll_loop tid (take (Suc k) ?rs) loop_start
              (polling_state f url (saveApiKey s)) = Pending v2 s2"
    by blast
  let ?p = "polling_state f url (saveApiKey s)"
  note ra = run_after_polling [OF k f u t]
  from len have tk: "take (Suc k) ?rs = take k ?rs @ [?rs ! k]"
    by (simp add: take_Suc_conv_app_nth)
  from poll_loop_Pending_D [OF l] tk
  have all: "\<forall>r\<in>set (take k ?rs). keeps_polling r" and kp: "keeps_polling (?rs ! k)"
    by simp_all
  from poll_loop_keeps [OF loop_condition_start all, of tid ?p] len
  obtain v1 s1 where 1: "poll_loop tid (take k ?rs) loop_start ?p = Pending v1 s1"
      "pollCount v1 = k"
    by (auto simp: loop_start_def)
  from poll_body_keeps [OF kp, of tid v1 s1] j
  obtain v' s' where 2: "poll_body tid (?rs ! k) v1 s1 = Ok v' s'" "loop_condition v'"
      "processingProgress s' =
         (if status v' = Str ''processing'' then min 80 (50 + 2 * Suc (pollCount v1))
          else processingProgress s1)"
      "status v' = json_status j"
    by auto
  from l have "s' = s2"
    by (simp add: tk poll_loop_snoc [OF 1(1)] 2(1,2))
  moreover have "progress_after e s k = processingProgress s1"
    by (simp add: progress_after_def ra 1(1))
  ultimately show ?thesis using 2(3,4) 1(2) by simp
qed

subsection \<open>Failing stages\<close>

lemma fetched_value_failed:
  assumes "failed r"
  shows "fetched_value r msg s = Throw (thrown_by r msg) s"
  using assms by (cases r rule: failed.cases) (simp_all add: fetched_value_def)

lemma fetched_value_ok: "fetched_value (Response True (Readable a)) msg s = Ok a s"
  by (simp add: fetched_value_def)

lemma failed_stops: "failed r \<Longrightarrow> \<not> keeps_polling r"
  by (cases r rule: keeps_polling.cases) simp_all

lemma poll_body_failed:
  assumes "failed r"
  shows "\<exists>s'. poll_body tid r v s =
             Throw (thrown_by r ''Failed to check transcription status'') s' \<and>
           frame s s' \<and>
           effects s' = effects s @ [Sleep 1000, StatusCall (apiKey s) (interp tid)]"
  by (simp add: poll_body_def fetched_value_failed [OF assms] frame_def)

lemma poll_loop_failed:
  assumes c: "loop_condition v" and pre: "\<forall>r\<in>set pre. keeps_polling r" and r: "failed r"
  shows "\<exists>s'. poll_loop tid (pre @ r # post) v s =
             Throw (thrown_by r ''Failed to check transcription status'') s' \<and>
           frame s s' \<and>
           effects s' = effects s @ polls (apiKey s) (interp tid) (Suc (length pre))"
proof -
  from poll_loop_keeps [OF c pre, of tid s]
  obtain v1 s1 where 1: "poll_loop tid pre v s = Pending v1 s1" "loop_condition v1" "frame s s1"
      "effects s1 = effects s @ polls (apiKey s) (interp tid) (length pre)"
    by blast
  from poll_body_failed [OF r, of tid v1 s1]
  obtain s2 where 2: "poll_body tid r v1 s1 =
        Throw (thrown_by r ''Failed to check transcription status'') s2" "frame s1 s2"
      "effects s2 = effects s1 @ [Sleep 1000, StatusCall (apiKey s1) (interp tid)]"
    by blast
  have k: "apiKey s1 = apiKey s" using 1(3) by (simp add: frame_def)
  have "poll_loop tid (pre @ r # post) v s =
      Throw (thrown_by r ''Failed to check transcription status'') s2"
    by (simp add: poll_loop_append 1 2)
  moreover have "effects s2 = effects s @ polls (apiKey s) (interp tid) (Suc (length pre))"
    by (simp add: 1 2 k polls_Suc)
  moreover have "frame s s2" using 1(3) 2(2) by (rule frame_trans)
  ultimately show ?thesis by blast
qed

lemma catch_message: "errorMessage (finally_block (catch_block x s)) = errorMessage (catch_block x t)"
  by (simp add: finally_block_def catch_block_def)

lemma upload_failed_run:
  assumes k: "apiKey s \<noteq> []" and f: "audioFile s = Some f" and u: "failed (uploadResponse e)"
  shows "\<exists>s'. processAudio e s = Returned s' \<and>
           errorMessage s' =
             errorMessage (catch_block (thrown_by (uploadResponse e) ''Failed to upload audio file'') s) \<and>
           successMessage s' = [] \<and> \<not> isLoading s' \<and>
           effects s' = effects s @
             [SetItem ''assemblyai_api_key'' (apiKey s), UploadCall (apiKey s) f]"
  using k f
  by (simp add: processAudio_def saveApiKey_def try_block_def upload_step_def
        fetched_value_failed [OF u] finally_block_def catch_block_def)

lemma submit_failed_run:
  assumes k: "apiKey s \<noteq> []" and f: "audioFile s = Some f"
    and u: "uploadResponse e = Response True (Readable url)"
    and t: "failed (transcriptResponse e)"
  shows "\<exists>s'. processAudio e s = Returned s' \<and>
           errorMessage s' =
             errorMessage (catch_block
               (thrown_by (transcriptResponse e) ''Failed to submit transcription request'') s) \<and>
           successMessage s' = [] \<and> \<not> isLoading s' \<and>
           effects s' = effects s @
             [SetItem ''assemblyai_api_key'' (apiKey s), UploadCall (apiKey s) f,
              SubmitCall (apiKey s) url ''en_us'' ''slam-1'']"
  using k f u
  by (simp add: processAudio_def saveApiKey_def try_block_def upload_step_def submit_step_def
        fetched_value_failed [OF t] fetched_value_ok finally_block_def catch_block_def)

lemma poll_failed_run:
  assumes k: "apiKey s \<noteq> []" and f: "audioFile s = Some f"
    and u: "uploadResponse e = Response True (Readable url)"
    and t: "transcriptResponse e = Response True (Readable tid)"
    and rs: "pollingResponses e = pre @ r # post"
    and pre: "\<forall>r\<in>set pre. keeps_polling r"
    and r: "failed r"
  shows "\<exists>s'. processAudio e s = Returned s' \<and>
           errorMessage s' =
             errorMessage (catch_block (thrown_by r ''Failed to check transcription status'') s) \<and>
           successMessage s' = [] \<and> \<not> isLoading s' \<and>
           effects s' = effects s @
             [SetItem ''assemblyai_api_key'' (apiKey s), UploadCall (apiKey s) f,
              SubmitCall (apiKey s) url ''en_us'' ''slam-1''] @
             polls (apiKey s) (interp tid) (Suc (length pre))"
proof -
  let ?p = "polling_state f url (saveApiKey s)"
  let ?x = "thrown_by r ''Failed to check transcription status''"
  from poll_loop_failed [OF loop_condition_start pre r, of tid post ?p]
  obtain s2 where 1: "poll_loop tid (pre @ r # post) loop_start ?p = Throw ?x s2"
      "frame ?p s2"
      "effects s2 = effects ?p @ polls (apiKey ?p) (interp tid) (Suc (length pre))"
    by blast
  have p: "processAudio e s = Returned (finally_block (catch_block ?x s2))"
    by (simp add: processAudio_polling [OF k f u t] rs 1(1))
  from 1(2) have "successMessage s2 = []"
    by (simp add: frame_def polling_state_fields)
  moreover from 1(3) have "effects s2 = effects s @
             [SetItem ''assemblyai_api_key'' (apiKey s), UploadCall (apiKey s) f,
              SubmitCall (apiKey s) url ''en_us'' ''slam-1''] @
             polls (apiKey s) (interp tid) (Suc (length pre))"
    by (simp add: polling_state_fields)
  ultimately show ?thesis
    unfolding p by (simp add: finally_catch_fields catch_message [of ?x s2 s])
qed

lemma output_step_caption_failed:
  assumes "status v = Str ''completed''" and "outputType s = ''subtitles''"
    and c: "failed (srtResponse e)"
  shows "\<exists>s'. output_step e f tid v s =
             Throw (thrown_by (srtResponse e) ''Failed to get SRT file'') s' \<and>
           effects s' = effects s @ [CaptionCall (apiKey s) (interp tid) (characterLength s)] \<and>
           successMessage s' = successMessage s"
  using assms(1,2) by (simp add: output_step_def fetched_value_failed [OF c])

lemma caption_failed_run:
  assumes k: "apiKey s \<noteq> []" and f: "audioFile s = Some f"
    and u: "uploadResponse e = Response True (Readable url)"
    and t: "transcriptResponse e = Response True (Readable tid)"
    and rs: "pollingResponses e = pre @ Response True (Readable j) # post"
    and pre: "\<forall>r\<in>set pre. keeps_polling r"
    and j: "json_status j = Str ''completed''"
    and o: "outputType s = ''subtitles''"
    and c: "failed (srtResponse e)"
  shows "\<exists>s'. processAudio e s = Returned s' \<and>
           errorMessage s' =
             errorMessage (catch_block (thrown_by (srtResponse e) ''Failed to get SRT file'') s) \<and>
           successMessage s' = [] \<and> \<not> isLoading s' \<and>
           effects s' = effects s @
             [SetItem ''assemblyai_api_key'' (apiKey s), UploadCall (apiKey s) f,
              SubmitCall (apiKey s) url ''en_us'' ''slam-1''] @
             polls (apiKey s) (interp tid) (Suc (length pre)) @
             [CaptionCall (apiKey s) (interp tid) (characterLength s)]"
proof -
  let ?x = "thrown_by (srtResponse e) ''Failed to get SRT file''"
  from j have r: "\<not> keeps_polling (Response True (Readable j))" by simp
  from processAudio_exit [OF k f u t rs pre r]
  obtain v s3 where 1: "processAudio e s =
           (case output_step e f tid v s3 of
              Pending v' s' \<Rightarrow> Waiting s'
            | Throw x s' \<Rightarrow> Returned (finally_block (catch_block x s'))
            | Ok u s' \<Rightarrow> Returned (finally_block s'))"
      "status v = json_status j" "outputType s3 = outputType s" "apiKey s3 = apiKey s"
      "characterLength s3 = characterLength s" "successMessage s3 = []"
      "effects s3 = effects s @
             [SetItem ''assemblyai_api_key'' (apiKey s), UploadCall (apiKey s) f,
              SubmitCall (apiKey s) url ''en_us'' ''slam-1''] @
             polls (apiKey s) (interp tid) (Suc (length pre))"
    by blast
  from 1(2) j have cv: "status v = Str ''completed''" by simp
  from 1(3) o have o3: "outputType s3 = ''subtitles''" by simp
  from output_step_caption_failed [OF cv o3 c, of f tid]
  obtain s4 where 2: "output_step e f tid v s3 = Throw ?x s4"
      "effects s4 = effects s3 @ [CaptionCall (apiKey s3) (interp tid) (characterLength s3)]"
      "successMessage s4 = successMessage s3"
    by blast
  have p: "processAudio e s = Returned (finally_block (catch_block ?x s4))"
    unfolding 1(1) by (simp only: 2(1) res.case)
  show ?thesis
    unfolding p using 1(4,5,6,7) 2(2,3)
    by (simp add: finally_catch_fields catch_message [of ?x s4 s])
qed

section \<open>The claims\<close>

text \<open>
  C1. The polling loop does not return while the status is queued or processing. For
  every sequence of responses: as long as each response so far is an \<^verbatim>\<open>ok\<close> response
  with status \<^verbatim>\<open>processing\<close> or \<^verbatim>\<open>queued\<close>, the loop is still pending, and its effects
  are, for each response, the one-second timer followed by one status query. At the first
  response of any other kind (another status, a response that is not \<^verbatim>\<open>ok\<close>, a rejected
  fetch, an unreadable body) the loop has left, the later responses are never asked for,
  and the effects are one timer and one query per response up to and including that one.
  Seen from the whole run: after a successful upload and submit, a run whose status
  responses so far all say queued or processing has not returned, and nothing but timers
  and status queries has happened since the submit call.
\<close>

theorem poll_loop_runs_to_first_terminal:
  assumes "\<forall>r\<in>set pre. keeps_polling r"
  shows "(\<exists>v' s'. poll_loop tid pre loop_start s = Pending v' s' \<and>
            effects s' = effects s @ polls (apiKey s) (interp tid) (length pre)) \<and>
         (\<not> keeps_polling r \<longrightarrow>
            (\<forall>v' s'. poll_loop tid (pre @ r # post) loop_start s \<noteq> Pending v' s') \<and>
            poll_loop tid (pre @ r # post) loop_start s = poll_loop tid (pre @ [r]) loop_start s \<and>
            effects (state_of (poll_loop tid (pre @ r # post) loop_start s)) =
              effects s @ polls (apiKey s) (interp tid) (Suc (length pre))) \<and>
         (apiKey c \<noteq> [] \<and> audioFile c = Some f \<and>
          uploadResponse e = Response True (Readable url) \<and>
          transcriptResponse e = Response True (Readable tid) \<and> pollingResponses e = pre \<longrightarrow>
            (\<exists>c'. processAudio e c = Waiting c' \<and>
               effects c' = effects c @
                 [SetItem ''assemblyai_api_key'' (apiKey c), UploadCall (apiKey c) f,
                  SubmitCall (apiKey c) url ''en_us'' ''slam-1''] @
                 polls (apiKey c) (interp tid) (length pre)))"
proof (intro conjI impI)
  from poll_loop_keeps [OF loop_condition_start assms, of tid s]
  show "\<exists>v' s'. poll_loop tid pre loop_start s = Pending v' s' \<and>
            effects s' = effects s @ polls (apiKey s) (interp tid) (length pre)"
    by blast
next
  assume r: "\<not> keeps_polling r"
  from poll_loop_terminal [OF loop_condition_start assms r, of s tid post]
  show "\<forall>v' s'. poll_loop tid (pre @ r # post) loop_start s \<noteq> Pending v' s'"
    by auto
next
  assume r: "\<not> keeps_polling r"
  from poll_loop_keeps [OF loop_condition_start assms, of tid s]
  obtain v1 s1 where 1: "poll_loop tid pre loop_start s = Pending v1 s1" "loop_condition v1"
    by blast
  from poll_body_stops [OF r, of s1 tid v1]
  have "poll_loop tid (r # post) v1 s1 = poll_loop tid [r] v1 s1"
    using 1(2) by (auto simp: poll_loop_stopped)
  then show "poll_loop tid (pre @ r # post) loop_start s = poll_loop tid (pre @ [r]) loop_start s"
    by (simp add: poll_loop_append 1)
next
  assume r: "\<not> keeps_polling r"
  from poll_loop_terminal [OF loop_condition_start assms r, of s tid post]
  show "effects (state_of (poll_loop tid (pre @ r # post) loop_start s)) =
          effects s @ polls (apiKey s) (interp tid) (Suc (length pre))"
    by auto
next
  assume a: "apiKey c \<noteq> [] \<and> audioFile c = Some f \<and>
          uploadResponse e = Response True (Readable url) \<and>
          transcriptResponse e = Response True (Readable tid) \<and> pollingResponses e = pre"
  let ?p = "polling_state f url (saveApiKey c)"
  from poll_loop_keeps [OF loop_condition_start assms, of tid ?p]
  obtain v' c' where 1: "poll_loop tid pre loop_start ?p = Pending v' c'"
      "effects c' = effects ?p @ polls (apiKey ?p) (interp tid) (length pre)"
    by blast
  from a have "processAudio e c = Waiting c'"
    by (simp add: processAudio_polling [of c f e url tid] 1(1))
  moreover from 1(2) have "effects c' = effects c @
                 [SetItem ''assemblyai_api_key'' (apiKey c), UploadCall (apiKey c) f,
                  SubmitCall (apiKey c) url ''en_us'' ''slam-1''] @
                 polls (apiKey c) (interp tid) (length pre)"
    by (simp add: polling_state_fields)
  ultimately show "\<exists>c'. processAudio e c = Waiting c' \<and>
               effects c' = effects c @
                 [SetItem ''assemblyai_api_key'' (apiKey c), UploadCall (apiKey c) f,
                  SubmitCall (apiKey c) url ''en_us'' ''slam-1''] @
                 polls (apiKey c) (interp tid) (length pre)"
    by blast
qed

theorem poll_loop_runs_to_first_terminal_witness:
  "keeps_polling (answer ''queued'' (Other ''null'')) \<and> keeps_polling (answer ''processing'' (Other ''null'')) \<and>
   \<not> keeps_polling (answer ''completed'' (Str ''Hello world'')) \<and>
   (\<forall>v' s'. poll_loop (Str ''job1'')
       ([answer ''queued'' (Other ''null''), answer ''processing'' (Other ''null'')] @
        answer ''completed'' (Str ''Hello world'') # [answer ''processing'' (Other ''null'')])
       loop_start ready \<noteq> Pending v' s') \<and>
   effects (state_of (poll_loop (Str ''job1'')
       ([answer ''queued'' (Other ''null''), answer ''processing'' (Other ''null'')] @
        answer ''completed'' (Str ''Hello world'') # [answer ''processing'' (Other ''null'')])
       loop_start ready)) =
     [Sleep 1000, StatusCall ''key'' ''job1'', Sleep 1000, StatusCall ''key'' ''job1'',
      Sleep 1000, StatusCall ''key'' ''job1''] \<and>
   (\<exists>c'. processAudio (service [answer ''queued'' (Other ''null''), answer ''processing'' (Other ''null'')])
            ready = Waiting c' \<and>
      effects c' =
        [SetItem ''assemblyai_api_key'' ''key'', UploadCall ''key'' interview,
         SubmitCall ''key'' (Str ''https://cdn.example/upload/1'') ''en_us'' ''slam-1'',
         Sleep 1000, StatusCall ''key'' ''job1'', Sleep 1000, StatusCall ''key'' ''job1''])"
proof -
  have h: "\<forall>r\<in>set [answer ''queued'' (Other ''null''), answer ''processing'' (Other ''null'')]. keeps_polling r"
    by (simp add: answer_def)
  have n: "\<not> keeps_polling (answer ''completed'' (Str ''Hello world''))"
    by (simp add: answer_def)
  have p: "effects ready @ polls (apiKey ready) (interp (Str ''job1''))
             (Suc (length [answer ''queued'' (Other ''null''), answer ''processing'' (Other ''null'')]))
      = [Sleep 1000, StatusCall ''key'' ''job1'', Sleep 1000, StatusCall ''key'' ''job1'',
         Sleep 1000, StatusCall ''key'' ''job1'']"
    by (simp add: ready_def polls_def interp_def)
  note t = poll_loop_runs_to_first_terminal [OF h, where tid = "Str ''job1''" and s = ready
      and r = "answer ''completed'' (Str ''Hello world'')" and post = "[answer ''processing'' (Other ''null'')]"]
  from t n have 1: "\<forall>v' s'. poll_loop (Str ''job1'')
       ([answer ''queued'' (Other ''null''), answer ''processing'' (Other ''null'')] @
        answer ''completed'' (Str ''Hello world'') # [answer ''processing'' (Other ''null'')])
       loop_start ready \<noteq> Pending v' s'"
    by blast
  from t n have 2: "effects (state_of (poll_loop (Str ''job1'')
       ([answer ''queued'' (Other ''null''), answer ''processing'' (Other ''null'')] @
        answer ''completed'' (Str ''Hello world'') # [answer ''processing'' (Other ''null'')])
       loop_start ready)) =
     effects ready @ polls (apiKey ready) (interp (Str ''job1''))
       (Suc (length [answer ''queued'' (Other ''null''), answer ''processing'' (Other ''null'')]))"
    by blast
  from h have k: "keeps_polling (answer ''queued'' (Other ''null''))" "keeps_polling (answer ''processing'' (Other ''null''))"
    by simp_all
  have a: "apiKey ready \<noteq> [] \<and> audioFile ready = Some interview \<and>
      uploadResponse (service [answer ''queued'' (Other ''null''), answer ''processing'' (Other ''null'')]) =
        Response True (Readable (Str ''https://cdn.example/upload/1'')) \<and>
      transcriptResponse (service [answer ''queued'' (Other ''null''), answer ''processing'' (Other ''null'')]) =
        Response True (Readable (Str ''job1'')) \<and>
      pollingResponses (service [answer ''queued'' (Other ''null''), answer ''processing'' (Other ''null'')]) =
        [answer ''queued'' (Other ''null''), answer ''processing'' (Other ''null'')]"
    by (simp add: ready_def service_def)
  from poll_loop_runs_to_first_terminal [OF h, where c = ready and f = interview
      and e = "service [answer ''queued'' (Other ''null''), answer ''processing'' (Other ''null'')]"
      and url = "Str ''https://cdn.example/upload/1''" and tid = "Str ''job1''"] a
  have 3: "\<exists>c'. processAudio (service [answer ''queued'' (Other ''null''), answer ''processing'' (Other ''null'')])
            ready = Waiting c' \<and>
      effects c' =
        [SetItem ''assemblyai_api_key'' ''key'', UploadCall ''key'' interview,
         SubmitCall ''key'' (Str ''https://cdn.example/upload/1'') ''en_us'' ''slam-1'',
         Sleep 1000, StatusCall ''key'' ''job1'', Sleep 1000, StatusCall ''key'' ''job1'']"
    by (simp add: ready_def polls_def interp_def)
  from k n 1 2 [unfolded p] 3 show ?thesis by blast
qed

text \<open>
  C2, as stated, fails: for the responses queued, processing, processing the estimates
  are 50, 54, 56 and not 50, 52, 54; on the first processing status seen the estimate is
  54, not \<open>min 80 (50 + 2 * 1)\<close>.
\<close>

theorem progress_sequence_differs:
  "map (progress_after
          (service [answer ''queued'' (Other ''null''), answer ''processing'' (Other ''null''),
                    answer ''processing'' (Other ''null''), answer ''completed'' (Str ''Hello world'')])
          ready) [1, 2, 3] = [50, 54, 56] \<and>
   map (progress_after
          (service [answer ''queued'' (Other ''null''), answer ''processing'' (Other ''null''),
                    answer ''processing'' (Other ''null''), answer ''completed'' (Str ''Hello world'')])
          ready) [1, 2, 3] \<noteq> [50, 52, 54] \<and>
   progress_after
          (service [answer ''queued'' (Other ''null''), answer ''processing'' (Other ''null''),
                    answer ''processing'' (Other ''null''), answer ''completed'' (Str ''Hello world'')])
          ready 2 \<noteq> min 80 (50 + 2 * 1)"
  by (simp add: progress_after_def run_after_def run_defs scene_defs)

text \<open>
  C2, amended. The poll counter counts every status query, the queued ones too. While
  the run is still polling after \<open>k + 1\<close> responses, the estimate is
  \<open>min 80 (50 + 2 * (k + 1))\<close> if the last response said \<^verbatim>\<open>processing\<close>, and what it was
  after \<open>k\<close> responses if it said \<^verbatim>\<open>queued\<close>. For the responses queued, processing,
  processing, completed, the run issues exactly four status queries, and the estimate
  after the first three is 50, 54, 56; the fourth ends the loop, and from then on the
  estimate is at least 90.
\<close>

theorem progress_formula:
  "(run_after e s (Suc k) = Waiting s2 \<and> k < length (pollingResponses e) \<and>
    pollingResponses e ! k = Response True (Readable j) \<longrightarrow>
      (json_status j = Str ''processing'' \<longrightarrow> processingProgress s2 = min 80 (50 + 2 * Suc k)) \<and>
      (json_status j = Str ''queued'' \<longrightarrow> processingProgress s2 = progress_after e s k)) \<and>
   (apiKey s \<noteq> [] \<and> audioFile s = Some f \<and>
    uploadResponse e = Response True (Readable url) \<and>
    transcriptResponse e = Response True (Readable tid) \<and>
    pollingResponses e = [answer ''queued'' a, answer ''processing'' b,
                          answer ''processing'' c, answer ''completed'' d] \<longrightarrow>
      map (progress_after e s) [1, 2, 3] = [50, 54, 56] \<and> 90 \<le> progress_after e s 4 \<and>
      (\<exists>new. effects (run_state (processAudio e s)) = effects s @ new \<and>
         length (filter is_StatusCall new) = 4))"
proof (intro conjI impI)
  assume a: "run_after e s (Suc k) = Waiting s2 \<and> k < length (pollingResponses e) \<and>
    pollingResponses e ! k = Response True (Readable j)"
  assume "json_status j = Str ''processing''"
  with progress_next [of e s k s2 j] a
  show "processingProgress s2 = min 80 (50 + 2 * Suc k)" by simp
next
  assume a: "run_after e s (Suc k) = Waiting s2 \<and> k < length (pollingResponses e) \<and>
    pollingResponses e ! k = Response True (Readable j)"
  assume "json_status j = Str ''queued''"
  with progress_next [of e s k s2 j] a
  show "processingProgress s2 = progress_after e s k" by simp
next
  assume a: "apiKey s \<noteq> [] \<and> audioFile s = Some f \<and>
    uploadResponse e = Response True (Readable url) \<and>
    transcriptResponse e = Response True (Readable tid) \<and>
    pollingResponses e = [answer ''queued'' a, answer ''processing'' b,
                          answer ''processing'' c, answer ''completed'' d]"
  then have ra: "\<And>n. run_after e s n =
     (case poll_loop tid (take n (pollingResponses e)) loop_start
             (polling_state f url (saveApiKey s)) of
        Pending v' s' \<Rightarrow> Waiting s'
      | Throw x s' \<Rightarrow> Returned (finally_block (catch_block x s'))
      | Ok v s3 \<Rightarrow>
          (case output_step e f tid v s3 of
             Pending v' s' \<Rightarrow> Waiting s'
           | Throw x s' \<Rightarrow> Returned (finally_block (catch_block x s'))
           | Ok u s' \<Rightarrow> Returned (finally_block s')))"
    by (intro run_after_polling) simp_all
  from a have rs: "pollingResponses e = [answer ''queued'' a, answer ''processing'' b,
                          answer ''processing'' c, answer ''completed'' d]"
    by simp
  show "map (progress_after e s) [1, 2, 3] = [50, 54, 56]"
    by (simp add: progress_after_def ra rs answer_def poll_body_def fetched_value_def
          loop_condition_def loop_start_def polling_state_def)
next
  assume a: "apiKey s \<noteq> [] \<and> audioFile s = Some f \<and>
    uploadResponse e = Response True (Readable url) \<and>
    transcriptResponse e = Response True (Readable tid) \<and>
    pollingResponses e = [answer ''queued'' a, answer ''processing'' b,
                          answer ''processing'' c, answer ''completed'' d]"
  then have k: "apiKey s \<noteq> []" and f: "audioFile s = Some f"
    and u: "uploadResponse e = Response True (Readable url)"
    and t: "transcriptResponse e = Response True (Readable tid)"
    and rs: "pollingResponses e = [answer ''queued'' a, answer ''processing'' b,
                          answer ''processing'' c, answer ''completed'' d]"
    by simp_all
  note ra = run_after_polling [OF k f u t]
  let ?j = "\<lparr>json_status = Str ''completed'', json_text = d\<rparr>"
  have rs': "take 4 (pollingResponses e) =
      [answer ''queued'' a, answer ''processing'' b, answer ''processing'' c] @
        Response True (Readable ?j) # []"
    by (simp add: rs answer_def)
  have pre: "\<forall>r\<in>set [answer ''queued'' a, answer ''processing'' b, answer ''processing'' c].
      keeps_polling r"
    by (simp add: answer_def)
  have r: "\<not> keeps_polling (Response True (Readable ?j))" by simp
  from poll_loop_exit [OF loop_condition_start pre r, of tid "[]" "polling_state f url (saveApiKey s)"]
  obtain v s3 where 1: "poll_loop tid (take 4 (pollingResponses e)) loop_start
         (polling_state f url (saveApiKey s)) = Ok v s3" "status v = json_status ?j"
    unfolding rs' by blast
  then have c: "status v = Str ''completed''" by simp
  have "progress_after e s 4 = processingProgress (state_of (output_step e f tid v s3))"
    by (simp add: progress_after_def ra 1(1) progress_of_case)
  with output_step_completed_progress [OF c, of e f tid s3]
  show "90 \<le> progress_after e s 4" by simp
next
  assume a: "apiKey s \<noteq> [] \<and> audioFile s = Some f \<and>
    uploadResponse e = Response True (Readable url) \<and>
    transcriptResponse e = Response True (Readable tid) \<and>
    pollingResponses e = [answer ''queued'' a, answer ''processing'' b,
                          answer ''processing'' c, answer ''completed'' d]"
  then have k: "apiKey s \<noteq> []" and f: "audioFile s = Some f"
    and u: "uploadResponse e = Response True (Readable url)"
    and t: "transcriptResponse e = Response True (Readable tid)"
    by simp_all
  let ?j = "\<lparr>json_status = Str ''completed'', json_text = d\<rparr>"
  from a have rs: "pollingResponses e =
      [answer ''queued'' a, answer ''processing'' b, answer ''processing'' c] @
        Response True (Readable ?j) # []"
    by (simp add: answer_def)
  have pre: "\<forall>r\<in>set [answer ''queued'' a, answer ''processing'' b, answer ''processing'' c].
      keeps_polling r"
    by (simp add: answer_def)
  have r: "\<not> keeps_polling (Response True (Readable ?j))" by simp
  from processAudio_exit [OF k f u t rs pre r]
  obtain v s3 where 1: "processAudio e s =
           (case output_step e f tid v s3 of
              Pending v' s' \<Rightarrow> Waiting s'
            | Throw x s' \<Rightarrow> Returned (finally_block (catch_block x s'))
            | Ok u s' \<Rightarrow> Returned (finally_block s'))"
      "effects s3 = effects s @
             [SetItem ''assemblyai_api_key'' (apiKey s), UploadCall (apiKey s) f,
              SubmitCall (apiKey s) url ''en_us'' ''slam-1''] @
             polls (apiKey s) (interp tid)
               (Suc (length [answer ''queued'' a, answer ''processing'' b, answer ''processing'' c]))"
    by blast
  from output_step_any [of e f tid v s3]
  obtain new where 2: "effects (state_of (output_step e f tid v s3)) = effects s3 @ new"
      "filter is_StatusCall new = []"
    by blast
  let ?new = "[SetItem ''assemblyai_api_key'' (apiKey s), UploadCall (apiKey s) f,
              SubmitCall (apiKey s) url ''en_us'' ''slam-1''] @
             polls (apiKey s) (interp tid) 4 @ new"
  have "effects (run_state (processAudio e s)) = effects s @ ?new"
    by (simp add: 1 2(1) effects_of_case eval_nat_numeral)
  moreover have "length (filter is_StatusCall ?new) = 4"
    by (simp add: status_calls_polls 2(2))
  ultimately show "\<exists>new. effects (run_state (processAudio e s)) = effects s @ new \<and>
         length (filter is_StatusCall new) = 4"
    by blast
qed

theorem progress_formula_witness:
  "(\<exists>s2. run_after four_polls ready 2 = Waiting s2 \<and> processingProgress s2 = 54) \<and>
   (\<exists>s2. run_after four_polls ready 1 = Waiting s2 \<and>
      processingProgress s2 = progress_after four_polls ready 0) \<and>
   map (progress_after four_polls ready) [1, 2, 3] = [50, 54, 56] \<and>
   90 \<le> progress_after four_polls ready 4 \<and>
   (\<exists>new. effects (run_state (processAudio four_polls ready)) = new \<and>
      length (filter is_StatusCall new) = 4)"
proof -
  let ?p = "\<lparr>json_status = Str ''processing'', json_text = Other ''null''\<rparr>"
  let ?q = "\<lparr>json_status = Str ''queued'', json_text = Other ''null''\<rparr>"
  have "\<exists>s1. run_after four_polls ready 2 = Waiting s1"
    by (simp add: run_after_def four_polls_def run_defs scene_defs)
  then obtain s2 where 1: "run_after four_polls ready 2 = Waiting s2" ..
  have "\<exists>s1. run_after four_polls ready 1 = Waiting s1"
    by (simp add: run_after_def four_polls_def run_defs scene_defs)
  then obtain s1 where 2: "run_after four_polls ready (Suc 0) = Waiting s1" by auto
  have 3: "1 < length (pollingResponses four_polls)"
      "pollingResponses four_polls ! 1 = Response True (Readable ?p)" "json_status ?p = Str ''processing''"
      "0 < length (pollingResponses four_polls)"
      "pollingResponses four_polls ! 0 = Response True (Readable ?q)" "json_status ?q = Str ''queued''"
    by (simp_all add: four_polls_def service_def answer_def)
  have 4: "apiKey ready \<noteq> [] \<and> audioFile ready = Some interview \<and>
    uploadResponse four_polls = Response True (Readable (Str ''https://cdn.example/upload/1'')) \<and>
    transcriptResponse four_polls = Response True (Readable (Str ''job1'')) \<and>
    pollingResponses four_polls = [answer ''queued'' (Other ''null''), answer ''processing'' (Other ''null''),
                          answer ''processing'' (Other ''null''), answer ''completed'' (Str ''Hello world'')]"
    by (simp add: four_polls_def service_def ready_def)
  have s: "Suc 1 = 2" by simp
  from progress_formula [of four_polls ready 1 s2 ?p, THEN conjunct1, unfolded s] 1 3(1,2,3)
  have "processingProgress s2 = min 80 (50 + 2 * 2)" by blast
  then have a: "processingProgress s2 = 54" by simp
  from progress_formula [of four_polls ready 0 s1 ?q, THEN conjunct1] 2 3(4,5,6)
  have b: "processingProgress s1 = progress_after four_polls ready 0" by blast
  from progress_formula [of four_polls ready _ _ _ interview "Str ''https://cdn.example/upload/1''"
      "Str ''job1''" "Other ''null''" "Other ''null''" "Other ''null''" "Str ''Hello world''"] 4
  have c: "map (progress_after four_polls ready) [1, 2, 3] = [50, 54, 56] \<and>
      90 \<le> progress_after four_polls ready 4 \<and>
      (\<exists>new. effects (run_state (processAudio four_polls ready)) = effects ready @ new \<and>
         length (filter is_StatusCall new) = 4)"
    by blast
  then have d: "\<exists>new. effects (run_state (processAudio four_polls ready)) = new \<and>
      length (filter is_StatusCall new) = 4"
    by (simp add: ready_def)
  from 2 have w1: "run_after four_polls ready 1 = Waiting s1" by simp
  from 1 w1 a b c d show ?thesis by blast
qed

text \<open>
  C3. The progress estimate during polling. Whenever the run is still polling after \<open>k\<close>
  responses: the estimate was 50 when polling began, it now lies between 50 and 80, and
  after one more response it is at least what it is now. An estimate above 80 after that
  response means that the response was a readable \<^verbatim>\<open>completed\<close>: 90 and 100 are assigned
  only after the loop has left on \<^verbatim>\<open>completed\<close>.
\<close>

theorem progress_is_monotone_and_bounded:
  assumes w: "run_after e s k = Waiting s1"
  shows "progress_after e s 0 = 50 \<and>
         50 \<le> processingProgress s1 \<and> processingProgress s1 \<le> 80 \<and>
         processingProgress s1 \<le> progress_after e s (Suc k) \<and>
         (80 < progress_after e s (Suc k) \<longrightarrow>
            k < length (pollingResponses e) \<and>
            (\<exists>j. pollingResponses e ! k = Response True (Readable j) \<and>
                 json_status j = Str ''completed''))"
proof -
  from run_after_Waiting_D [OF w]
  obtain f url tid v1 where k: "apiKey s \<noteq> []" and f: "audioFile s = Some f"
    and u: "uploadResponse e = Response True (Readable url)"
    and t: "transcriptResponse e = Response True (Readable tid)"
    and l: "poll_loop tid (take k (pollingResponses e)) loop_start
              (polling_state f url (saveApiKey s)) = Pending v1 s1"
    by blast
  let ?p = "polling_state f url (saveApiKey s)"
  let ?rs = "pollingResponses e"
  note ra = run_after_polling [OF k f u t]
  have p0: "progress_after e s 0 = 50"
    by (simp add: progress_after_def ra loop_condition_start polling_state_progress)
  have "50 \<le> processingProgress ?p"
    and "processingProgress ?p \<le> min 80 (50 + 2 * pollCount loop_start)"
    by (simp_all add: polling_state_progress loop_start_def)
  from poll_loop_progress [OF l this]
  have i: "50 \<le> processingProgress s1" "processingProgress s1 \<le> min 80 (50 + 2 * pollCount v1)"
    by simp_all
  then have b: "processingProgress s1 \<le> 80" by simp
  have n: "processingProgress s1 \<le> progress_after e s (Suc k) \<and>
         (80 < progress_after e s (Suc k) \<longrightarrow>
            k < length ?rs \<and>
            (\<exists>j. ?rs ! k = Response True (Readable j) \<and> json_status j = Str ''completed''))"
  proof (cases "k < length ?rs")
    case False
    then have "take (Suc k) ?rs = take k ?rs" by simp
    then have "progress_after e s (Suc k) = processingProgress s1"
      by (simp add: progress_after_def ra l)
    with b show ?thesis by simp
  next
    case True
    let ?r = "?rs ! k"
    from True have tk: "take (Suc k) ?rs = take k ?rs @ [?r]"
      by (simp add: take_Suc_conv_app_nth)
    note sn = poll_loop_snoc [OF l, of ?r]
    show ?thesis
    proof (cases "keeps_polling ?r")
      case kp: True
      from poll_body_keeps [OF kp, of tid v1 s1]
      obtain v2 s2 where 2: "poll_body tid ?r v1 s1 = Ok v2 s2" "loop_condition v2"
          "processingProgress s2 =
             (if status v2 = Str ''processing'' then min 80 (50 + 2 * Suc (pollCount v1))
              else processingProgress s1)"
        by blast
      have "progress_after e s (Suc k) = processingProgress s2"
        by (simp add: progress_after_def ra tk sn 2)
      with 2(3) i b show ?thesis by (simp split: if_splits)
    next
      case kp: False
      from poll_body_stops [OF kp, of s1 tid v1]
      obtain s2 where 2: "processingProgress s2 = processingProgress s1"
          "(\<exists>x. poll_body tid ?r v1 s1 = Throw x s2) \<or>
           (\<exists>v' j. poll_body tid ?r v1 s1 = Ok v' s2 \<and> \<not> loop_condition v' \<and>
              ?r = Response True (Readable j) \<and> status v' = json_status j \<and>
              result v' = Some j)"
        by blast
      from 2(2) show ?thesis
      proof
        assume "\<exists>x. poll_body tid ?r v1 s1 = Throw x s2"
        then obtain x where "poll_body tid ?r v1 s1 = Throw x s2" ..
        then have "progress_after e s (Suc k) = processingProgress s2"
          by (simp add: progress_after_def ra tk sn finally_block_def catch_block_def)
        with 2(1) b show ?thesis by simp
      next
        assume "\<exists>v' j. poll_body tid ?r v1 s1 = Ok v' s2 \<and> \<not> loop_condition v' \<and>
              ?r = Response True (Readable j) \<and> status v' = json_status j \<and>
              result v' = Some j"
        then obtain v' j where 3: "poll_body tid ?r v1 s1 = Ok v' s2" "\<not> loop_condition v'"
            "?r = Response True (Readable j)" "status v' = json_status j"
          by blast
        have pa: "progress_after e s (Suc k) =
            processingProgress (state_of (output_step e f tid v' s2))"
          by (simp add: progress_after_def ra tk sn 3(1,2) progress_of_case)
        show ?thesis
        proof (cases "status v' = Str ''completed''")
          case c: True
          from output_step_completed_progress [OF c, of e f tid s2] pa
          have "90 \<le> progress_after e s (Suc k)" by simp
          with b True 3(3,4) c show ?thesis by simp
        next
          case c: False
          from output_step_failed [OF c, of e f tid s2] pa 2(1)
          have "progress_after e s (Suc k) = processingProgress s1" by simp
          with b show ?thesis by simp
        qed
      qed
    qed
  qed
  from p0 i(1) b n show ?thesis by simp
qed

theorem progress_is_monotone_and_bounded_witness:
  "(\<exists>s1. run_after four_polls ready 2 = Waiting s1 \<and>
      progress_after four_polls ready 0 = 50 \<and>
      50 \<le> processingProgress s1 \<and> processingProgress s1 \<le> 80 \<and>
      processingProgress s1 \<le> progress_after four_polls ready 3) \<and>
   (\<exists>s1. run_after four_polls ready 3 = Waiting s1 \<and>
      80 < progress_after four_polls ready 4 \<and>
      3 < length (pollingResponses four_polls) \<and>
      (\<exists>j. pollingResponses four_polls ! 3 = Response True (Readable j) \<and>
           json_status j = Str ''completed''))"
proof -
  have "\<exists>s1. run_after four_polls ready 2 = Waiting s1"
    by (simp add: run_after_def four_polls_def run_defs scene_defs)
  then obtain s1 where 1: "run_after four_polls ready 2 = Waiting s1" ..
  have "\<exists>s1. run_after four_polls ready 3 = Waiting s1"
    by (simp add: run_after_def four_polls_def run_defs scene_defs)
  then obtain s2 where 2: "run_after four_polls ready 3 = Waiting s2" ..
  have 3: "80 < progress_after four_polls ready 4"
    by (simp add: progress_after_def run_after_def four_polls_def run_defs scene_defs)
  from progress_is_monotone_and_bounded [OF 1]
  have a: "progress_after four_polls ready 0 = 50 \<and>
      50 \<le> processingProgress s1 \<and> processingProgress s1 \<le> 80 \<and>
      processingProgress s1 \<le> progress_after four_polls ready 3"
    by simp
  from progress_is_monotone_and_bounded [OF 2] 3
  have b: "3 < length (pollingResponses four_polls) \<and>
      (\<exists>j. pollingResponses four_polls ! 3 = Response True (Readable j) \<and>
           json_status j = Str ''completed'')"
    by simp
  from 1 2 3 a b show ?thesis by blast
qed

text \<open>
  C4. A status that is none of \<^verbatim>\<open>queued\<close>, \<^verbatim>\<open>processing\<close>, \<^verbatim>\<open>completed\<close> ends the
  run at once. When the first response that does not keep the loop going is a readable one
  with such a status (an unknown string, \<^verbatim>\<open>error\<close>, or no status field at all), the run
  returns with the error message \<^verbatim>\<open>Transcription failed with status: \<close> followed by the
  status, no success message and the loading flag down; its effects end with the query
  that saw the status: no further query, no caption call, no download.
\<close>

theorem unexpected_status_fails_fast:
  assumes k: "apiKey s \<noteq> []" and f: "audioFile s = Some f"
    and u: "uploadResponse e = Response True (Readable url)"
    and t: "transcriptResponse e = Response True (Readable tid)"
    and rs: "pollingResponses e = pre @ Response True (Readable j) # post"
    and pre: "\<forall>r\<in>set pre. keeps_polling r"
    and j: "json_status j \<noteq> Str ''queued''" "json_status j \<noteq> Str ''processing''"
      "json_status j \<noteq> Str ''completed''"
  shows "\<exists>s'. processAudio e s = Returned s' \<and>
           errorMessage s' = ''Transcription failed with status: '' @ interp (json_status j) \<and>
           successMessage s' = [] \<and> \<not> isLoading s' \<and>
           effects s' = effects s @
             [SetItem ''assemblyai_api_key'' (apiKey s), UploadCall (apiKey s) f,
              SubmitCall (apiKey s) url ''en_us'' ''slam-1''] @
             polls (apiKey s) (interp tid) (Suc (length pre))"
proof -
  from j have r: "\<not> keeps_polling (Response True (Readable j))" by simp
  from processAudio_exit [OF k f u t rs pre r]
  obtain v s3 where 1: "processAudio e s =
           (case output_step e f tid v s3 of
              Pending v' s' \<Rightarrow> Waiting s'
            | Throw x s' \<Rightarrow> Returned (finally_block (catch_block x s'))
            | Ok u s' \<Rightarrow> Returned (finally_block s'))"
      "status v = json_status j" "successMessage s3 = []"
      "effects s3 = effects s @
             [SetItem ''assemblyai_api_key'' (apiKey s), UploadCall (apiKey s) f,
              SubmitCall (apiKey s) url ''en_us'' ''slam-1''] @
             polls (apiKey s) (interp tid) (Suc (length pre))"
    by blast
  from j 1(2) have nc: "status v \<noteq> Str ''completed''" by simp
  have p: "processAudio e s = Returned (finally_block (catch_block
          (Error (''Transcription failed with status: '' @ interp (status v))) s3))"
    unfolding 1(1) by (simp only: output_step_failed [OF nc] res.case)
  show ?thesis
    unfolding p using 1(2,3,4) by (simp add: finally_catch_fields)
qed

theorem unexpected_status_fails_fast_witness:
  "\<exists>s'. processAudio
          (service [answer ''queued'' (Other ''null''), answer ''paused'' (Other ''null''),
                    answer ''completed'' (Str ''Hello world'')]) ready = Returned s' \<and>
        errorMessage s' = ''Transcription failed with status: paused'' \<and>
        successMessage s' = [] \<and> \<not> isLoading s' \<and>
        effects s' =
          [SetItem ''assemblyai_api_key'' ''key'', UploadCall ''key'' interview,
           SubmitCall ''key'' (Str ''https://cdn.example/upload/1'') ''en_us'' ''slam-1'',
           Sleep 1000, StatusCall ''key'' ''job1'', Sleep 1000, StatusCall ''key'' ''job1'']"
proof -
  let ?e = "service [answer ''queued'' (Other ''null''), answer ''paused'' (Other ''null''),
                     answer ''completed'' (Str ''Hello world'')]"
  let ?j = "\<lparr>json_status = Str ''paused'', json_text = Other ''null''\<rparr>"
  have k: "apiKey ready \<noteq> []" and f: "audioFile ready = Some interview"
    by (simp_all add: ready_def)
  have u: "uploadResponse ?e = Response True (Readable (Str ''https://cdn.example/upload/1''))"
    and t: "transcriptResponse ?e = Response True (Readable (Str ''job1''))"
    and rs: "pollingResponses ?e = [answer ''queued'' (Other ''null'')] @ Response True (Readable ?j) #
               [answer ''completed'' (Str ''Hello world'')]"
    by (simp_all add: service_def answer_def)
  have pre: "\<forall>r\<in>set [answer ''queued'' (Other ''null'')]. keeps_polling r"
    by (simp add: answer_def)
  have j: "json_status ?j \<noteq> Str ''queued''" "json_status ?j \<noteq> Str ''processing''"
      "json_status ?j \<noteq> Str ''completed''"
    by simp_all
  from unexpected_status_fails_fast [OF k f u t rs pre j]
  show ?thesis by (simp add: ready_def polls_def interp_def)
qed

text \<open>
  C5, as stated, fails: the only check on the file is that one is selected. A selected
  file of zero bytes is uploaded like any other, and the run goes on to its end.
\<close>

theorem empty_file_is_uploaded:
  "bytes silence = [] \<and>
   effects (run_state (processAudio (service [answer ''completed'' (Str '''')])
                         (ready\<lparr>audioFile := Some silence\<rparr>))) =
     [SetItem ''assemblyai_api_key'' ''key'', UploadCall ''key'' silence,
      SubmitCall ''key'' (Str ''https://cdn.example/upload/1'') ''en_us'' ''slam-1'',
      Sleep 1000, StatusCall ''key'' ''job1'', Download (Str '''') ''silence.txt'']"
  by (simp add: run_defs scene_defs silence_def)

text \<open>
  C5, amended. A run without a key is rejected with no effect at all, and a run with a
  key but no selected file is rejected after the key is saved, before any network call.
  For every selected file, whatever its size, the first network call is the upload of
  that file with the key as authorization, and no second upload follows. An upload
  response that is not \<^verbatim>\<open>ok\<close> ends the run with \<^verbatim>\<open>Failed to upload audio file\<close> and no
  further call.
\<close>

theorem upload_stage:
  "(apiKey s = [] \<longrightarrow>
      (\<exists>s'. processAudio e s = Returned s' \<and> effects s' = effects s \<and>
         errorMessage s' = ''Please enter your AssemblyAI API key'')) \<and>
   (apiKey s \<noteq> [] \<and> audioFile s = None \<longrightarrow>
      (\<exists>s'. processAudio e s = Returned s' \<and>
         effects s' = effects s @ [SetItem ''assemblyai_api_key'' (apiKey s)] \<and>
         errorMessage s' = ''Please select an audio file'')) \<and>
   (apiKey s \<noteq> [] \<and> audioFile s = Some f \<longrightarrow>
      (\<exists>rest. effects (run_state (processAudio e s)) =
         effects s @ SetItem ''assemblyai_api_key'' (apiKey s) # UploadCall (apiKey s) f # rest \<and>
         filter is_UploadCall rest = [])) \<and>
   (apiKey s \<noteq> [] \<and> audioFile s = Some f \<and> uploadResponse e = Response False b \<longrightarrow>
      (\<exists>s'. processAudio e s = Returned s' \<and>
         errorMessage s' = ''Failed to upload audio file'' \<and> \<not> isLoading s' \<and>
         effects s' = effects s @
           [SetItem ''assemblyai_api_key'' (apiKey s), UploadCall (apiKey s) f]))"
proof (intro conjI impI)
  assume "apiKey s = []"
  then show "\<exists>s'. processAudio e s = Returned s' \<and> effects s' = effects s \<and>
         errorMessage s' = ''Please enter your AssemblyAI API key''"
    by (simp add: processAudio_no_key)
next
  assume "apiKey s \<noteq> [] \<and> audioFile s = None"
  then show "\<exists>s'. processAudio e s = Returned s' \<and>
         effects s' = effects s @ [SetItem ''assemblyai_api_key'' (apiKey s)] \<and>
         errorMessage s' = ''Please select an audio file''"
    by (simp add: processAudio_no_file)
next
  assume "apiKey s \<noteq> [] \<and> audioFile s = Some f"
  then have k: "apiKey s \<noteq> []" and f: "audioFile s = Some f" by simp_all
  from processAudio_any [OF k f, of e]
  show "\<exists>rest. effects (run_state (processAudio e s)) =
         effects s @ SetItem ''assemblyai_api_key'' (apiKey s) # UploadCall (apiKey s) f # rest \<and>
         filter is_UploadCall rest = []"
    by blast
next
  assume "apiKey s \<noteq> [] \<and> audioFile s = Some f \<and> uploadResponse e = Response False b"
  then show "\<exists>s'. processAudio e s = Returned s' \<and>
         errorMessage s' = ''Failed to upload audio file'' \<and> \<not> isLoading s' \<and>
         effects s' = effects s @
           [SetItem ''assemblyai_api_key'' (apiKey s), UploadCall (apiKey s) f]"
    by (simp add: processAudio_def saveApiKey_def try_block_def upload_step_def
          fetched_value_def finally_block_def catch_block_def)
qed

theorem upload_stage_witness:
  "(\<exists>s'. processAudio (service []) (ready\<lparr>apiKey := []\<rparr>) = Returned s' \<and> effects s' = [] \<and>
      errorMessage s' = ''Please enter your AssemblyAI API key'') \<and>
   (\<exists>s'. processAudio (service []) (ready\<lparr>audioFile := None\<rparr>) = Returned s' \<and>
      effects s' = [SetItem ''assemblyai_api_key'' ''key''] \<and>
      errorMessage s' = ''Please select an audio file'') \<and>
   (\<exists>rest. effects (run_state (processAudio (service []) (ready\<lparr>audioFile := Some silence\<rparr>))) =
      SetItem ''assemblyai_api_key'' ''key'' # UploadCall ''key'' silence # rest \<and>
      filter is_UploadCall rest = []) \<and>
   (\<exists>s'. processAudio ((service [])\<lparr>uploadResponse := Response False (Readable (Other ''null''))\<rparr>) ready =
        Returned s' \<and>
      errorMessage s' = ''Failed to upload audio file'' \<and> \<not> isLoading s' \<and>
      effects s' = [SetItem ''assemblyai_api_key'' ''key'', UploadCall ''key'' interview])"
proof -
  let ?e = "(service [])\<lparr>uploadResponse := Response False (Readable (Other ''null''))\<rparr>"
  have 1: "apiKey (ready\<lparr>apiKey := []\<rparr>) = []" by simp
  have 2: "apiKey (ready\<lparr>audioFile := None\<rparr>) \<noteq> [] \<and> audioFile (ready\<lparr>audioFile := None\<rparr>) = None"
    by (simp add: ready_def)
  have 3: "apiKey (ready\<lparr>audioFile := Some silence\<rparr>) \<noteq> [] \<and>
      audioFile (ready\<lparr>audioFile := Some silence\<rparr>) = Some silence"
    by (simp add: ready_def)
  have 4: "apiKey ready \<noteq> [] \<and> audioFile ready = Some interview \<and>
      uploadResponse ?e = Response False (Readable (Other ''null''))"
    by (simp add: ready_def)
  from upload_stage [of "ready\<lparr>apiKey := []\<rparr>" "service []"] 1
  have a: "\<exists>s'. processAudio (service []) (ready\<lparr>apiKey := []\<rparr>) = Returned s' \<and> effects s' = [] \<and>
      errorMessage s' = ''Please enter your AssemblyAI API key''"
    by (simp add: ready_def)
  from upload_stage [of "ready\<lparr>audioFile := None\<rparr>" "service []"] 2
  have b: "\<exists>s'. processAudio (service []) (ready\<lparr>audioFile := None\<rparr>) = Returned s' \<and>
      effects s' = [SetItem ''assemblyai_api_key'' ''key''] \<and>
      errorMessage s' = ''Please select an audio file''"
    by (simp add: ready_def)
  from upload_stage [of "ready\<lparr>audioFile := Some silence\<rparr>" "service []" silence] 3
  have c: "\<exists>rest. effects (run_state (processAudio (service []) (ready\<lparr>audioFile := Some silence\<rparr>))) =
      SetItem ''assemblyai_api_key'' ''key'' # UploadCall ''key'' silence # rest \<and>
      filter is_UploadCall rest = []"
    by (simp add: ready_def)
  from upload_stage [of ready ?e interview "Readable (Other ''null'')"] 4
  have d: "\<exists>s'. processAudio ?e ready = Returned s' \<and>
      errorMessage s' = ''Failed to upload audio file'' \<and> \<not> isLoading s' \<and>
      effects s' = [SetItem ''assemblyai_api_key'' ''key'', UploadCall ''key'' interview]"
    by (simp add: ready_def)
  from a b c d show ?thesis by blast
qed

text \<open>
  C6. The output file name. The first piece of the display name split at \<^verbatim>\<open>.\<close> is the
  name up to its first \<^verbatim>\<open>.\<close> (the whole name when it has none), and every download made
  by the output step is named by that stem followed by \<^verbatim>\<open>.srt\<close> for subtitles and
  \<^verbatim>\<open>.txt\<close> otherwise.
\<close>

theorem output_file_name:
  assumes "output_step e f tid v s = Ok u s'"
  shows "index0 (js_split CHR ''.'' (name f)) = Str (takeWhile (\<lambda>c. c \<noteq> CHR ''.'') (name f)) \<and>
         (\<exists>out. last (effects s') =
            Download out (takeWhile (\<lambda>c. c \<noteq> CHR ''.'') (name f) @
                          (if outputType s = ''subtitles'' then ''.srt'' else ''.txt'')))"
proof
  from stem [of "CHR ''.''" "name f"] js_split_nonempty [of "CHR ''.''" "name f"]
  show "index0 (js_split CHR ''.'' (name f)) = Str (takeWhile (\<lambda>c. c \<noteq> CHR ''.'') (name f))"
    by (cases "js_split CHR ''.'' (name f)") (simp_all add: index0_def interp_def)
next
  from assms
  show "\<exists>out. last (effects s') =
            Download out (takeWhile (\<lambda>c. c \<noteq> CHR ''.'') (name f) @
                          (if outputType s = ''subtitles'' then ''.srt'' else ''.txt''))"
    by (auto simp: output_step_def stem fetched_value_def Let_def
             split: if_splits fetched.splits body.splits option.splits)
qed

theorem output_file_name_witness:
  "index0 (js_split CHR ''.'' ''meeting.recording.mp3'') = Str ''meeting'' \<and>
   index0 (js_split CHR ''.'' ''podcast'') = Str ''podcast'' \<and>
   (\<exists>u s' out. output_step (service []) meeting (Str ''job1'') completed_vars ready = Ok u s' \<and>
       last (effects s') = Download out ''meeting.txt'') \<and>
   (\<exists>u s' out. output_step (service []) podcast (Str ''job1'') completed_vars ready = Ok u s' \<and>
       last (effects s') = Download out ''podcast.txt'') \<and>
   (\<exists>u s' out. output_step (service []) meeting (Str ''job1'') completed_vars
         (ready\<lparr>outputType := ''subtitles''\<rparr>) = Ok u s' \<and>
       last (effects s') = Download out ''meeting.srt'')"
proof -
  have "\<exists>u s'. output_step (service []) meeting (Str ''job1'') completed_vars ready = Ok u s'"
    by (simp add: output_step_def completed_vars_def ready_def)
  then obtain u1 s1 where
    1: "output_step (service []) meeting (Str ''job1'') completed_vars ready = Ok u1 s1"
    by blast
  have "\<exists>u s'. output_step (service []) podcast (Str ''job1'') completed_vars ready = Ok u s'"
    by (simp add: output_step_def completed_vars_def ready_def)
  then obtain u2 s2 where
    2: "output_step (service []) podcast (Str ''job1'') completed_vars ready = Ok u2 s2"
    by blast
  have "\<exists>u s'. output_step (service []) meeting (Str ''job1'') completed_vars
         (ready\<lparr>outputType := ''subtitles''\<rparr>) = Ok u s'"
    by (simp add: output_step_def completed_vars_def ready_def service_def fetched_value_def)
  then obtain u3 s3 where
    3: "output_step (service []) meeting (Str ''job1'') completed_vars
         (ready\<lparr>outputType := ''subtitles''\<rparr>) = Ok u3 s3"
    by blast
  from output_file_name [OF 1]
  have a: "index0 (js_split CHR ''.'' ''meeting.recording.mp3'') = Str ''meeting''"
      "\<exists>out. last (effects s1) = Download out ''meeting.txt''"
    by (simp_all add: meeting_def ready_def)
  from output_file_name [OF 2]
  have b: "index0 (js_split CHR ''.'' ''podcast'') = Str ''podcast''"
      "\<exists>out. last (effects s2) = Download out ''podcast.txt''"
    by (simp_all add: podcast_def ready_def)
  from output_file_name [OF 3]
  have c: "\<exists>out. last (effects s3) = Download out ''meeting.srt''"
    by (simp add: meeting_def ready_def)
  from a b c 1 2 3 show ?thesis by blast
qed

text \<open>
  C7. Transcript output. When the loop leaves on a \<^verbatim>\<open>completed\<close> response and the output
  type is not \<^verbatim>\<open>subtitles\<close>, the run returns without an error, and the only effect after
  the last status query is the download of the text of that response under the name
  stem + \<^verbatim>\<open>.txt\<close>: no network call follows the final status query.
\<close>

theorem transcript_is_completed_text:
  assumes k: "apiKey s \<noteq> []" and f: "audioFile s = Some f"
    and u: "uploadResponse e = Response True (Readable url)"
    and t: "transcriptResponse e = Response True (Readable tid)"
    and rs: "pollingResponses e = pre @ Response True (Readable j) # post"
    and pre: "\<forall>r\<in>set pre. keeps_polling r"
    and j: "json_status j = Str ''completed''"
    and o: "outputType s \<noteq> ''subtitles''"
  shows "\<exists>s'. processAudio e s = Returned s' \<and>
           effects s' = effects s @
             [SetItem ''assemblyai_api_key'' (apiKey s), UploadCall (apiKey s) f,
              SubmitCall (apiKey s) url ''en_us'' ''slam-1''] @
             polls (apiKey s) (interp tid) (Suc (length pre)) @
             [Download (json_text j) (takeWhile (\<lambda>c. c \<noteq> CHR ''.'') (name f) @ ''.txt'')] \<and>
           errorMessage s' = [] \<and> \<not> isLoading s' \<and> processingProgress s' = 100"
proof -
  from j have r: "\<not> keeps_polling (Response True (Readable j))" by simp
  from processAudio_exit [OF k f u t rs pre r]
  obtain v s3 where 1: "processAudio e s =
           (case output_step e f tid v s3 of
              Pending v' s' \<Rightarrow> Waiting s'
            | Throw x s' \<Rightarrow> Returned (finally_block (catch_block x s'))
            | Ok u s' \<Rightarrow> Returned (finally_block s'))"
      "status v = json_status j" "result v = Some j" "outputType s3 = outputType s"
      "errorMessage s3 = []"
      "effects s3 = effects s @
             [SetItem ''assemblyai_api_key'' (apiKey s), UploadCall (apiKey s) f,
              SubmitCall (apiKey s) url ''en_us'' ''slam-1''] @
             polls (apiKey s) (interp tid) (Suc (length pre))"
    by blast
  from 1(2) j have c: "status v = Str ''completed''" by simp
  from 1(4) o have o3: "outputType s3 \<noteq> ''subtitles''" by simp
  from output_step_transcript [OF c o3 1(3), of e f tid]
  obtain s4 where 2: "output_step e f tid v s3 = Ok () s4"
      "effects s4 = effects s3 @
         [Download (json_text j) (takeWhile (\<lambda>c. c \<noteq> CHR ''.'') (name f) @ ''.txt'')]"
      "errorMessage s4 = errorMessage s3" "processingProgress s4 = 100"
    by blast
  have p: "processAudio e s = Returned (finally_block s4)"
    unfolding 1(1) by (simp only: 2(1) res.case)
  show ?thesis
    unfolding p using 1(5,6) 2(2,3,4) by (simp add: finally_fields)
qed

theorem transcript_is_completed_text_witness:
  "\<exists>s'. processAudio (service [answer ''completed'' (Str ''Hello world'')]) ready = Returned s' \<and>
        effects s' =
          [SetItem ''assemblyai_api_key'' ''key'', UploadCall ''key'' interview,
           SubmitCall ''key'' (Str ''https://cdn.example/upload/1'') ''en_us'' ''slam-1'',
           Sleep 1000, StatusCall ''key'' ''job1'',
           Download (Str ''Hello world'') ''interview.txt''] \<and>
        errorMessage s' = [] \<and> \<not> isLoading s' \<and> processingProgress s' = 100"
proof -
  let ?e = "service [answer ''completed'' (Str ''Hello world'')]"
  let ?j = "\<lparr>json_status = Str ''completed'', json_text = Str ''Hello world''\<rparr>"
  have k: "apiKey ready \<noteq> []" and f: "audioFile ready = Some interview"
    and o: "outputType ready \<noteq> ''subtitles''"
    by (simp_all add: ready_def)
  have u: "uploadResponse ?e = Response True (Readable (Str ''https://cdn.example/upload/1''))"
    and t: "transcriptResponse ?e = Response True (Readable (Str ''job1''))"
    and rs: "pollingResponses ?e = [] @ Response True (Readable ?j) # []"
    by (simp_all add: service_def answer_def)
  have pre: "\<forall>r\<in>set []. keeps_polling r" by simp
  have j: "json_status ?j = Str ''completed''" by simp
  from transcript_is_completed_text [OF k f u t rs pre j o]
  show ?thesis by (simp add: ready_def polls_def interp_def interview_def)
qed

text \<open>
  C8. Subtitles output. When the loop leaves on a \<^verbatim>\<open>completed\<close> response and the output
  type is \<^verbatim>\<open>subtitles\<close>, exactly one caption call follows the last status query, with
  the job id and \<^verbatim>\<open>characterLength\<close> as \<^verbatim>\<open>chars_per_caption\<close>. If it answers \<^verbatim>\<open>ok\<close>
  with text \<open>txt\<close>, the download is \<open>txt\<close> unchanged under the name stem + \<^verbatim>\<open>.srt\<close>. If
  the response is not \<^verbatim>\<open>ok\<close>, the run fails with \<^verbatim>\<open>Failed to get SRT file\<close> and nothing
  is downloaded.
\<close>

theorem subtitles_are_caption_response:
  assumes k: "apiKey s \<noteq> []" and f: "audioFile s = Some f"
    and u: "uploadResponse e = Response True (Readable url)"
    and t: "transcriptResponse e = Response True (Readable tid)"
    and rs: "pollingResponses e = pre @ Response True (Readable j) # post"
    and pre: "\<forall>r\<in>set pre. keeps_polling r"
    and j: "json_status j = Str ''completed''"
    and o: "outputType s = ''subtitles''"
  shows "(srtResponse e = Response True (Readable txt) \<longrightarrow>
          (\<exists>s'. processAudio e s = Returned s' \<and>
             effects s' = effects s @
               [SetItem ''assemblyai_api_key'' (apiKey s), UploadCall (apiKey s) f,
                SubmitCall (apiKey s) url ''en_us'' ''slam-1''] @
               polls (apiKey s) (interp tid) (Suc (length pre)) @
               [CaptionCall (apiKey s) (interp tid) (characterLength s),
                Download (Str txt) (takeWhile (\<lambda>c. c \<noteq> CHR ''.'') (name f) @ ''.srt'')] \<and>
             errorMessage s' = [] \<and> \<not> isLoading s')) \<and>
         (srtResponse e = Response False b \<longrightarrow>
          (\<exists>s'. processAudio e s = Returned s' \<and>
             effects s' = effects s @
               [SetItem ''assemblyai_api_key'' (apiKey s), UploadCall (apiKey s) f,
                SubmitCall (apiKey s) url ''en_us'' ''slam-1''] @
               polls (apiKey s) (interp tid) (Suc (length pre)) @
               [CaptionCall (apiKey s) (interp tid) (characterLength s)] \<and>
             errorMessage s' = ''Failed to get SRT file'' \<and> successMessage s' = [] \<and>
             \<not> isLoading s'))"
proof -
  from j have r: "\<not> keeps_polling (Response True (Readable j))" by simp
  from processAudio_exit [OF k f u t rs pre r]
  obtain v s3 where 1: "processAudio e s =
           (case output_step e f tid v s3 of
              Pending v' s' \<Rightarrow> Waiting s'
            | Throw x s' \<Rightarrow> Returned (finally_block (catch_block x s'))
            | Ok u s' \<Rightarrow> Returned (finally_block s'))"
      "status v = json_status j" "outputType s3 = outputType s" "apiKey s3 = apiKey s"
      "characterLength s3 = characterLength s" "errorMessage s3 = []" "successMessage s3 = []"
      "effects s3 = effects s @
             [SetItem ''assemblyai_api_key'' (apiKey s), UploadCall (apiKey s) f,
              SubmitCall (apiKey s) url ''en_us'' ''slam-1''] @
             polls (apiKey s) (interp tid) (Suc (length pre))"
    by blast
  from 1(2) j have c: "status v = Str ''completed''" by simp
  from 1(3) o have o3: "outputType s3 = ''subtitles''" by simp
  show ?thesis
  proof (intro conjI impI)
    assume ok: "srtResponse e = Response True (Readable txt)"
    from output_step_subtitles [OF c o3 ok, of f tid]
    obtain s4 where 2: "output_step e f tid v s3 = Ok () s4"
        "effects s4 = effects s3 @
           [CaptionCall (apiKey s3) (interp tid) (characterLength s3),
            Download (Str txt) (takeWhile (\<lambda>c. c \<noteq> CHR ''.'') (name f) @ ''.srt'')]"
        "errorMessage s4 = errorMessage s3"
      by blast
    have p: "processAudio e s = Returned (finally_block s4)"
      unfolding 1(1) by (simp only: 2(1) res.case)
    show "\<exists>s'. processAudio e s = Returned s' \<and>
             effects s' = effects s @
               [SetItem ''assemblyai_api_key'' (apiKey s), UploadCall (apiKey s) f,
                SubmitCall (apiKey s) url ''en_us'' ''slam-1''] @
               polls (apiKey s) (interp tid) (Suc (length pre)) @
               [CaptionCall (apiKey s) (interp tid) (characterLength s),
                Download (Str txt) (takeWhile (\<lambda>c. c \<noteq> CHR ''.'') (name f) @ ''.srt'')] \<and>
             errorMessage s' = [] \<and> \<not> isLoading s'"
      unfolding p using 1(4,5,6,8) 2(2,3) by (simp add: finally_fields)
  next
    assume bad: "srtResponse e = Response False b"
    from output_step_subtitles_failed [OF c o3 bad, of f tid]
    obtain s4 where 2: "output_step e f tid v s3 = Throw (Error ''Failed to get SRT file'') s4"
        "effects s4 = effects s3 @ [CaptionCall (apiKey s3) (interp tid) (characterLength s3)]"
        "successMessage s4 = successMessage s3"
      by blast
    have p: "processAudio e s =
        Returned (finally_block (catch_block (Error ''Failed to get SRT file'') s4))"
      unfolding 1(1) by (simp only: 2(1) res.case)
    show "\<exists>s'. processAudio e s = Returned s' \<and>
             effects s' = effects s @
               [SetItem ''assemblyai_api_key'' (apiKey s), UploadCall (apiKey s) f,
                SubmitCall (apiKey s) url ''en_us'' ''slam-1''] @
               polls (apiKey s) (interp tid) (Suc (length pre)) @
               [CaptionCall (apiKey s) (interp tid) (characterLength s)] \<and>
             errorMessage s' = ''Failed to get SRT file'' \<and> successMessage s' = [] \<and>
             \<not> isLoading s'"
      unfolding p using 1(4,5,7,8) 2(2,3) by (simp add: finally_catch_fields)
  qed
qed

theorem subtitles_are_caption_response_witness:
  "(\<exists>s'. processAudio (service [answer ''completed'' (Str ''Hello'')])
            (ready\<lparr>outputType := ''subtitles''\<rparr>) = Returned s' \<and>
        effects s' =
          [SetItem ''assemblyai_api_key'' ''key'', UploadCall ''key'' interview,
           SubmitCall ''key'' (Str ''https://cdn.example/upload/1'') ''en_us'' ''slam-1'',
           Sleep 1000, StatusCall ''key'' ''job1'', CaptionCall ''key'' ''job1'' 32,
           Download (Str ''1\<newline>00:00:00,000 --> 00:00:01,000\<newline>Hello\<newline>'')
             ''interview.srt''] \<and>
        errorMessage s' = [] \<and> \<not> isLoading s') \<and>
   (\<exists>s'. processAudio
            ((service [answer ''completed'' (Str ''Hello'')])
               \<lparr>srtResponse := Response False (Readable ''Not found'')\<rparr>)
            (ready\<lparr>outputType := ''subtitles''\<rparr>) = Returned s' \<and>
        effects s' =
          [SetItem ''assemblyai_api_key'' ''key'', UploadCall ''key'' interview,
           SubmitCall ''key'' (Str ''https://cdn.example/upload/1'') ''en_us'' ''slam-1'',
           Sleep 1000, StatusCall ''key'' ''job1'', CaptionCall ''key'' ''job1'' 32] \<and>
        errorMessage s' = ''Failed to get SRT file'' \<and> successMessage s' = [] \<and>
        \<not> isLoading s')"
proof -
  let ?e = "service [answer ''completed'' (Str ''Hello'')]"
  let ?e' = "?e\<lparr>srtResponse := Response False (Readable ''Not found'')\<rparr>"
  let ?s = "ready\<lparr>outputType := ''subtitles''\<rparr>"
  let ?j = "\<lparr>json_status = Str ''completed'', json_text = Str ''Hello''\<rparr>"
  have k: "apiKey ?s \<noteq> []" and f: "audioFile ?s = Some interview"
    and o: "outputType ?s = ''subtitles''"
    by (simp_all add: ready_def)
  have u: "uploadResponse ?e = Response True (Readable (Str ''https://cdn.example/upload/1''))"
    and t: "transcriptResponse ?e = Response True (Readable (Str ''job1''))"
    and rs: "pollingResponses ?e = [] @ Response True (Readable ?j) # []"
    and c: "srtResponse ?e =
        Response True (Readable ''1\<newline>00:00:00,000 --> 00:00:01,000\<newline>Hello\<newline>'')"
    by (simp_all add: service_def answer_def)
  have u': "uploadResponse ?e' = Response True (Readable (Str ''https://cdn.example/upload/1''))"
    and t': "transcriptResponse ?e' = Response True (Readable (Str ''job1''))"
    and rs': "pollingResponses ?e' = [] @ Response True (Readable ?j) # []"
    and c': "srtResponse ?e' = Response False (Readable ''Not found'')"
    by (simp_all add: service_def answer_def)
  have pre: "\<forall>r\<in>set []. keeps_polling r" by simp
  have j: "json_status ?j = Str ''completed''" by simp
  from subtitles_are_caption_response [OF k f u t rs pre j o,
      of "''1\<newline>00:00:00,000 --> 00:00:01,000\<newline>Hello\<newline>''"] c
  have 1: "\<exists>s'. processAudio ?e ?s = Returned s' \<and>
        effects s' =
          [SetItem ''assemblyai_api_key'' ''key'', UploadCall ''key'' interview,
           SubmitCall ''key'' (Str ''https://cdn.example/upload/1'') ''en_us'' ''slam-1'',
           Sleep 1000, StatusCall ''key'' ''job1'', CaptionCall ''key'' ''job1'' 32,
           Download (Str ''1\<newline>00:00:00,000 --> 00:00:01,000\<newline>Hello\<newline>'')
             ''interview.srt''] \<and>
        errorMessage s' = [] \<and> \<not> isLoading s'"
    by (simp add: ready_def polls_def interp_def interview_def)
  from subtitles_are_caption_response [OF k f u' t' rs' pre j o,
      where b = "Readable ''Not found''"] c'
  have 2: "\<exists>s'. processAudio ?e' ?s = Returned s' \<and>
        effects s' =
          [SetItem ''assemblyai_api_key'' ''key'', UploadCall ''key'' interview,
           SubmitCall ''key'' (Str ''https://cdn.example/upload/1'') ''en_us'' ''slam-1'',
           Sleep 1000, StatusCall ''key'' ''job1'', CaptionCall ''key'' ''job1'' 32] \<and>
        errorMessage s' = ''Failed to get SRT file'' \<and> successMessage s' = [] \<and>
        \<not> isLoading s'"
    by (simp add: ready_def polls_def interp_def)
  from 1 2 show ?thesis by (rule conjI)
qed

text \<open>
  C9. A submit response that is not \<^verbatim>\<open>ok\<close> aborts the run: it returns with the error
  \<^verbatim>\<open>Failed to submit transcription request\<close>, and its effects are the key being saved,
  the upload call and the submit call, so no status query, caption call or download
  follows. No stage retries. No run, whatever the service answers, issues more than one
  upload call, one submit call or one caption call, nor more status queries than there
  are status responses. And a failure at any stage (the fetch rejects, the response is not
  \<^verbatim>\<open>ok\<close>, or its body cannot be read) ends the run there: the run returns with the
  message of what was thrown, no success message and the loading flag down, and the
  failed call is the last effect. For the upload that is the upload call; for the submit,
  the submit call; for the poller, the status query that got the failed response, so that
  no status query follows it and the later responses are never asked for; for the caption
  call, the caption call, with no download.
\<close>

theorem submit_failure_aborts:
  "(apiKey s \<noteq> [] \<and> audioFile s = Some f \<and>
    uploadResponse e = Response True (Readable url) \<and> transcriptResponse e = Response False b \<longrightarrow>
      (\<exists>s'. processAudio e s = Returned s' \<and>
         errorMessage s' = ''Failed to submit transcription request'' \<and>
         successMessage s' = [] \<and> \<not> isLoading s' \<and>
         effects s' = effects s @
           [SetItem ''assemblyai_api_key'' (apiKey s), UploadCall (apiKey s) f,
            SubmitCall (apiKey s) url ''en_us'' ''slam-1''])) \<and>
   (\<exists>new. effects (run_state (processAudio e s)) = effects s @ new \<and>
      length (filter is_UploadCall new) \<le> 1 \<and> length (filter is_SubmitCall new) \<le> 1 \<and>
      length (filter is_CaptionCall new) \<le> 1 \<and>
      length (filter is_StatusCall new) \<le> length (pollingResponses e)) \<and>
   (apiKey s \<noteq> [] \<and> audioFile s = Some f \<and> failed (uploadResponse e) \<longrightarrow>
      (\<exists>s'. processAudio e s = Returned s' \<and>
         errorMessage s' =
           errorMessage (catch_block (thrown_by (uploadResponse e) ''Failed to upload audio file'') s) \<and>
         successMessage s' = [] \<and> \<not> isLoading s' \<and>
         effects s' = effects s @
           [SetItem ''assemblyai_api_key'' (apiKey s), UploadCall (apiKey s) f])) \<and>
   (apiKey s \<noteq> [] \<and> audioFile s = Some f \<and>
    uploadResponse e = Response True (Readable url) \<and> failed (transcriptResponse e) \<longrightarrow>
      (\<exists>s'. processAudio e s = Returned s' \<and>
         errorMessage s' =
           errorMessage (catch_block
             (thrown_by (transcriptResponse e) ''Failed to submit transcription request'') s) \<and>
         successMessage s' = [] \<and> \<not> isLoading s' \<and>
         effects s' = effects s @
           [SetItem ''assemblyai_api_key'' (apiKey s), UploadCall (apiKey s) f,
            SubmitCall (apiKey s) url ''en_us'' ''slam-1''])) \<and>
   (apiKey s \<noteq> [] \<and> audioFile s = Some f \<and>
    uploadResponse e = Response True (Readable url) \<and>
    transcriptResponse e = Response True (Readable tid) \<and>
    pollingResponses e = pre @ r # post \<and> (\<forall>q\<in>set pre. keeps_polling q) \<and> failed r \<longrightarrow>
      (\<exists>s'. processAudio e s = Returned s' \<and>
         errorMessage s' =
           errorMessage (catch_block (thrown_by r ''Failed to check transcription status'') s) \<and>
         successMessage s' = [] \<and> \<not> isLoading s' \<and>
         effects s' = effects s @
           [SetItem ''assemblyai_api_key'' (apiKey s), UploadCall (apiKey s) f,
            SubmitCall (apiKey s) url ''en_us'' ''slam-1''] @
           polls (apiKey s) (interp tid) (Suc (length pre)))) \<and>
   (apiKey s \<noteq> [] \<and> audioFile s = Some f \<and>
    uploadResponse e = Response True (Readable url) \<and>
    transcriptResponse e = Response True (Readable tid) \<and>
    pollingResponses e = pre @ Response True (Readable j) # post \<and>
    (\<forall>q\<in>set pre. keeps_polling q) \<and> json_status j = Str ''completed'' \<and>
    outputType s = ''subtitles'' \<and> failed (srtResponse e) \<longrightarrow>
      (\<exists>s'. processAudio e s = Returned s' \<and>
         errorMessage s' =
           errorMessage (catch_block (thrown_by (srtResponse e) ''Failed to get SRT file'') s) \<and>
         successMessage s' = [] \<and> \<not> isLoading s' \<and>
         effects s' = effects s @
           [SetItem ''assemblyai_api_key'' (apiKey s), UploadCall (apiKey s) f,
            SubmitCall (apiKey s) url ''en_us'' ''slam-1''] @
           polls (apiKey s) (interp tid) (Suc (length pre)) @
           [CaptionCall (apiKey s) (interp tid) (characterLength s)]))"
proof -
  have a: "apiKey s \<noteq> [] \<and> audioFile s = Some f \<and>
    uploadResponse e = Response True (Readable url) \<and> transcriptResponse e = Response False b \<longrightarrow>
      (\<exists>s'. processAudio e s = Returned s' \<and>
         errorMessage s' = ''Failed to submit transcription request'' \<and>
         successMessage s' = [] \<and> \<not> isLoading s' \<and>
         effects s' = effects s @
           [SetItem ''assemblyai_api_key'' (apiKey s), UploadCall (apiKey s) f,
            SubmitCall (apiKey s) url ''en_us'' ''slam-1''])"
    by (simp add: processAudio_def saveApiKey_def try_block_def upload_step_def submit_step_def
          fetched_value_def finally_block_def catch_block_def)
  have b: "\<exists>new. effects (run_state (processAudio e s)) = effects s @ new \<and>
      length (filter is_UploadCall new) \<le> 1 \<and> length (filter is_SubmitCall new) \<le> 1 \<and>
      length (filter is_CaptionCall new) \<le> 1 \<and>
      length (filter is_StatusCall new) \<le> length (pollingResponses e)"
  proof (cases "apiKey s = []")
    case True
    then show ?thesis by (simp add: processAudio_no_key)
  next
    case k: False
    show ?thesis
    proof (cases "audioFile s")
      case None
      with k show ?thesis by (simp add: processAudio_no_file)
    next
      case (Some g)
      from processAudio_any [OF k Some, of e]
      obtain rest where "effects (run_state (processAudio e s)) =
           effects s @ SetItem ''assemblyai_api_key'' (apiKey s) # UploadCall (apiKey s) g # rest"
        "filter is_UploadCall rest = []" "length (filter is_SubmitCall rest) \<le> 1"
        "length (filter is_CaptionCall rest) \<le> 1"
        "length (filter is_StatusCall rest) \<le> length (pollingResponses e)"
        by blast
      then show ?thesis
        by (intro exI [of _ "SetItem ''assemblyai_api_key'' (apiKey s) #
              UploadCall (apiKey s) g # rest"]) simp
    qed
  qed
  note c = upload_failed_run [of s f e]
  note d = submit_failed_run [of s f e url]
  note p = poll_failed_run [of s f e url tid pre r post]
  note q = caption_failed_run [of s f e url tid pre j post]
  from a b c d p q show ?thesis by blast
qed

theorem submit_failure_aborts_witness:
  "(\<exists>s'. processAudio ((service [answer ''completed'' (Str ''Hello world'')])
             \<lparr>transcriptResponse := Response False (Readable (Other ''null''))\<rparr>) ready = Returned s' \<and>
      errorMessage s' = ''Failed to submit transcription request'' \<and>
      successMessage s' = [] \<and> \<not> isLoading s' \<and>
      effects s' =
        [SetItem ''assemblyai_api_key'' ''key'', UploadCall ''key'' interview,
         SubmitCall ''key'' (Str ''https://cdn.example/upload/1'') ''en_us'' ''slam-1'']) \<and>
   (\<exists>s'. processAudio ((service [answer ''completed'' (Str ''Hello world'')])
             \<lparr>uploadResponse := Rejected (Error ''Failed to fetch'')\<rparr>) ready = Returned s' \<and>
      errorMessage s' = ''Failed to fetch'' \<and> successMessage s' = [] \<and> \<not> isLoading s' \<and>
      effects s' = [SetItem ''assemblyai_api_key'' ''key'', UploadCall ''key'' interview]) \<and>
   (\<exists>s'. processAudio ((service [answer ''completed'' (Str ''Hello world'')])
             \<lparr>transcriptResponse := Response True (Unreadable (Error ''Unexpected token''))\<rparr>)
            ready = Returned s' \<and>
      errorMessage s' = ''Unexpected token'' \<and> successMessage s' = [] \<and> \<not> isLoading s' \<and>
      effects s' =
        [SetItem ''assemblyai_api_key'' ''key'', UploadCall ''key'' interview,
         SubmitCall ''key'' (Str ''https://cdn.example/upload/1'') ''en_us'' ''slam-1'']) \<and>
   (\<exists>s'. processAudio
            (service [answer ''queued'' (Other ''null''), Response False (Unreadable NonError),
                      answer ''completed'' (Str ''Hello world'')]) ready = Returned s' \<and>
      errorMessage s' = ''Failed to check transcription status'' \<and>
      successMessage s' = [] \<and> \<not> isLoading s' \<and>
      effects s' =
        [SetItem ''assemblyai_api_key'' ''key'', UploadCall ''key'' interview,
         SubmitCall ''key'' (Str ''https://cdn.example/upload/1'') ''en_us'' ''slam-1'',
         Sleep 1000, StatusCall ''key'' ''job1'', Sleep 1000, StatusCall ''key'' ''job1'']) \<and>
   (\<exists>s'. processAudio
            ((service [answer ''completed'' (Str ''Hello world'')])\<lparr>srtResponse := Rejected NonError\<rparr>)
            (ready\<lparr>outputType := ''subtitles''\<rparr>) = Returned s' \<and>
      errorMessage s' = ''An unknown error occurred'' \<and>
      successMessage s' = [] \<and> \<not> isLoading s' \<and>
      effects s' =
        [SetItem ''assemblyai_api_key'' ''key'', UploadCall ''key'' interview,
         SubmitCall ''key'' (Str ''https://cdn.example/upload/1'') ''en_us'' ''slam-1'',
         Sleep 1000, StatusCall ''key'' ''job1'', CaptionCall ''key'' ''job1'' 32])"
proof -
  let ?u = "Str ''https://cdn.example/upload/1''"
  let ?t = "Str ''job1''"
  let ?c = "service [answer ''completed'' (Str ''Hello world'')]"
  let ?e1 = "?c\<lparr>transcriptResponse := Response False (Readable (Other ''null''))\<rparr>"
  let ?e2 = "?c\<lparr>uploadResponse := Rejected (Error ''Failed to fetch'')\<rparr>"
  let ?e3 = "?c\<lparr>transcriptResponse := Response True (Unreadable (Error ''Unexpected token''))\<rparr>"
  let ?bad = "Response False (Unreadable NonError) :: poll_json fetched"
  let ?e4 = "service [answer ''queued'' (Other ''null''), ?bad,
                      answer ''completed'' (Str ''Hello world'')]"
  let ?e5 = "?c\<lparr>srtResponse := Rejected NonError\<rparr>"
  let ?s5 = "ready\<lparr>outputType := ''subtitles''\<rparr>"
  let ?j = "\<lparr>json_status = Str ''completed'', json_text = Str ''Hello world''\<rparr>"
  have h1: "apiKey ready \<noteq> [] \<and> audioFile ready = Some interview \<and>
      uploadResponse ?e1 = Response True (Readable ?u) \<and>
      transcriptResponse ?e1 = Response False (Readable (Other ''null''))"
    by (simp add: ready_def service_def)
  have h2: "apiKey ready \<noteq> [] \<and> audioFile ready = Some interview \<and> failed (uploadResponse ?e2)"
    by (simp add: ready_def)
  have h3: "apiKey ready \<noteq> [] \<and> audioFile ready = Some interview \<and>
      uploadResponse ?e3 = Response True (Readable ?u) \<and> failed (transcriptResponse ?e3)"
    by (simp add: ready_def service_def)
  have h4: "apiKey ready \<noteq> [] \<and> audioFile ready = Some interview \<and>
      uploadResponse ?e4 = Response True (Readable ?u) \<and>
      transcriptResponse ?e4 = Response True (Readable ?t) \<and>
      pollingResponses ?e4 = [answer ''queued'' (Other ''null'')] @ ?bad #
        [answer ''completed'' (Str ''Hello world'')] \<and>
      (\<forall>q\<in>set [answer ''queued'' (Other ''null'')]. keeps_polling q) \<and> failed ?bad"
    by (simp add: ready_def service_def answer_def)
  have h5: "apiKey ?s5 \<noteq> [] \<and> audioFile ?s5 = Some interview \<and>
      uploadResponse ?e5 = Response True (Readable ?u) \<and>
      transcriptResponse ?e5 = Response True (Readable ?t) \<and>
      pollingResponses ?e5 = [] @ Response True (Readable ?j) # [] \<and>
      (\<forall>q\<in>set []. keeps_polling q) \<and> json_status ?j = Str ''completed'' \<and>
      outputType ?s5 = ''subtitles'' \<and> failed (srtResponse ?e5)"
    by (simp add: ready_def service_def answer_def)
  from submit_failure_aborts [of ready interview ?e1 ?u "Readable (Other ''null'')",
      THEN conjunct1] h1
  have 1: "\<exists>s'. processAudio ?e1 ready = Returned s' \<and>
      errorMessage s' = ''Failed to submit transcription request'' \<and>
      successMessage s' = [] \<and> \<not> isLoading s' \<and>
      effects s' =
        [SetItem ''assemblyai_api_key'' ''key'', UploadCall ''key'' interview,
         SubmitCall ''key'' ?u ''en_us'' ''slam-1'']"
    by (simp add: ready_def)
  from submit_failure_aborts [of ready interview ?e2,
      THEN conjunct2, THEN conjunct2, THEN conjunct1] h2
  have 2: "\<exists>s'. processAudio ?e2 ready = Returned s' \<and>
      errorMessage s' = ''Failed to fetch'' \<and> successMessage s' = [] \<and> \<not> isLoading s' \<and>
      effects s' = [SetItem ''assemblyai_api_key'' ''key'', UploadCall ''key'' interview]"
    by (simp add: ready_def catch_block_def)
  from submit_failure_aborts [of ready interview ?e3 ?u,
      THEN conjunct2, THEN conjunct2, THEN conjunct2, THEN conjunct1] h3
  have 3: "\<exists>s'. processAudio ?e3 ready = Returned s' \<and>
      errorMessage s' = ''Unexpected token'' \<and> successMessage s' = [] \<and> \<not> isLoading s' \<and>
      effects s' =
        [SetItem ''assemblyai_api_key'' ''key'', UploadCall ''key'' interview,
         SubmitCall ''key'' ?u ''en_us'' ''slam-1'']"
    by (simp add: ready_def catch_block_def)
  from submit_failure_aborts [where s = ready and f = interview and e = ?e4 and url = ?u
      and tid = ?t and pre = "[answer ''queued'' (Other ''null'')]" and r = ?bad
      and post = "[answer ''completed'' (Str ''Hello world'')]",
      THEN conjunct2, THEN conjunct2, THEN conjunct2, THEN conjunct2, THEN conjunct1] h4
  have 4: "\<exists>s'. processAudio ?e4 ready = Returned s' \<and>
      errorMessage s' = ''Failed to check transcription status'' \<and>
      successMessage s' = [] \<and> \<not> isLoading s' \<and>
      effects s' =
        [SetItem ''assemblyai_api_key'' ''key'', UploadCall ''key'' interview,
         SubmitCall ''key'' ?u ''en_us'' ''slam-1'',
         Sleep 1000, StatusCall ''key'' ''job1'', Sleep 1000, StatusCall ''key'' ''job1'']"
    by (simp add: ready_def catch_block_def polls_def interp_def)
  from submit_failure_aborts [where s = ?s5 and f = interview and e = ?e5 and url = ?u
      and tid = ?t and pre = "[]" and j = ?j and post = "[]",
      THEN conjunct2, THEN conjunct2, THEN conjunct2, THEN conjunct2, THEN conjunct2] h5
  have 5: "\<exists>s'. processAudio ?e5 ?s5 = Returned s' \<and>
      errorMessage s' = ''An unknown error occurred'' \<and>
      successMessage s' = [] \<and> \<not> isLoading s' \<and>
      effects s' =
        [SetItem ''assemblyai_api_key'' ''key'', UploadCall ''key'' interview,
         SubmitCall ''key'' ?u ''en_us'' ''slam-1'',
         Sleep 1000, StatusCall ''key'' ''job1'', CaptionCall ''key'' ''job1'' 32]"
    by (simp add: ready_def catch_block_def polls_def interp_def)
  from 1 2 3 4 5 show ?thesis by blast
qed

text \<open>
  C10. The loading flag. A run that is rejected before the \<^verbatim>\<open>try\<close> block (no key, no
  file) leaves \<^verbatim>\<open>isLoading\<close> as it found it; every run that passes both checks and
  returns, by success or by any failure, returns with \<^verbatim>\<open>isLoading\<close> false. So a run that
  starts with the flag down (the button that starts it is disabled while the flag is up)
  never returns with the flag up.
\<close>

theorem loading_flag_is_reset:
  assumes "processAudio e s = Returned s'"
  shows "(apiKey s = [] \<or> audioFile s = None \<longrightarrow> isLoading s' = isLoading s) \<and>
         (apiKey s \<noteq> [] \<and> audioFile s \<noteq> None \<longrightarrow> \<not> isLoading s') \<and>
         (\<not> isLoading s \<longrightarrow> \<not> isLoading s')"
  using assms
  by (auto simp: processAudio_def saveApiKey_def finally_block_def Let_def
           split: if_splits option.splits res.splits)

theorem loading_flag_is_reset_witness:
  "(\<exists>s'. processAudio (service []) (ready\<lparr>apiKey := []\<rparr>) = Returned s' \<and>
          isLoading s' = isLoading (ready\<lparr>apiKey := []\<rparr>) \<and> \<not> isLoading s') \<and>
   (\<exists>s'. processAudio (service [answer ''completed'' (Str ''Hello world'')]) ready = Returned s' \<and>
          \<not> isLoading s')"
proof -
  obtain s1 where 1: "processAudio (service []) (ready\<lparr>apiKey := []\<rparr>) = Returned s1"
    by (simp add: processAudio_def ready_def)
  have "\<exists>s'. processAudio (service [answer ''completed'' (Str ''Hello world'')]) ready = Returned s'"
    by (simp add: run_defs scene_defs)
  then obtain s2 where
    2: "processAudio (service [answer ''completed'' (Str ''Hello world'')]) ready = Returned s2" ..
  have a: "apiKey (ready\<lparr>apiKey := []\<rparr>) = [] \<or> audioFile (ready\<lparr>apiKey := []\<rparr>) = None"
    by simp
  have b: "apiKey ready \<noteq> [] \<and> audioFile ready \<noteq> None"
    by (simp add: ready_def)
  have c: "\<not> isLoading (ready\<lparr>apiKey := []\<rparr>)"
    by (simp add: ready_def)
  from loading_flag_is_reset [OF 1] a c
  have "isLoading s1 = isLoading (ready\<lparr>apiKey := []\<rparr>) \<and> \<not> isLoading s1"
    by blast
  moreover from loading_flag_is_reset [OF 2] b have "\<not> isLoading s2"
    by blast
  ultimately show ?thesis using 1 2 by blast
qed

end
